theory Spec2Isabelle
  imports Main "HOL-Library.AList" "HOL-Library.Char_ord" "HOL-Library.List_Lexorder"
begin

section \<open>Data model (scripts/types.ts)\<close>

text \<open>
  JavaScript numbers that hold counts and millisecond timestamps are modelled as
  integers (the rounding of \<open>+\<close> on large counts is written out where the
  download totals are added up); strings are character lists; an optional
  property is an \<open>option\<close>. Field names of the nested enrichment records carry
  the name of their record as a prefix, because several of them share names in
  the source (\<open>stars\<close>, \<open>latestVersion\<close>, \<open>tags\<close>, ...).
\<close>

text \<open>
  What reading a property \<open>obj[key]\<close> of a parsed JSON object gives: the value of
  an own property, a member inherited from \<open>Object.prototype\<close> (a function, or
  the prototype itself for \<open>__proto__\<close>), or \<open>undefined\<close>. The npm enricher stores
  such a value in \<open>lastPublished\<close>.
\<close>

datatype 'a member = Own 'a | Inherited | Missing

datatype RegistryType = Npm | Pypi | Nuget | Oci | Mcpb

datatype TransportType = StreamableHttp | Sse

datatype ServerStatus = Active | Deprecated | Deleted

record EnvironmentVariable =
  ev_name :: string
  ev_description :: "string option"
  ev_required :: "bool option"
  ev_secret :: "bool option"

record RemoteHeader =
  rh_name :: string
  rh_description :: "string option"
  rh_isRequired :: "bool option"
  rh_isSecret :: "bool option"

record Package =
  registryType :: RegistryType
  pkg_identifier :: string
  pkg_transport :: "TransportType list option"
  pkg_environmentVariables :: "EnvironmentVariable list option"
  pkg_fileSha256 :: "string option"

record Remote =
  remote_type :: TransportType
  remote_url :: string
  remote_headers :: "RemoteHeader list option"

record Repository =
  repo_url :: string
  repo_source :: "string option"

record MCPRegistryServer =
  rs_name :: string
  rs_description :: string
  rs_repository :: "Repository option"
  rs_version :: string
  rs_packages :: "Package list option"
  rs_remotes :: "Remote list option"

record MCPRegistryMeta =
  meta_status :: ServerStatus
  meta_publishedAt :: string
  meta_updatedAt :: string
  meta_isLatest :: bool

record MCPRegistryEntry =
  server :: MCPRegistryServer
  meta :: MCPRegistryMeta

record GitHubEnrichment =
  gh_stars :: int
  gh_forks :: int
  gh_openIssues :: int
  gh_watchers :: int
  gh_lastCommit :: string
  gh_license :: "string option"
  gh_topics :: "string list"
  gh_language :: "string option"
  gh_owner_login :: string
  gh_owner_avatar :: string
  gh_archived :: bool
  gh_defaultBranch :: string

record NpmEnrichment =
  npm_weeklyDownloads :: int
  npm_monthlyDownloads :: int
  npm_latestVersion :: string
  npm_dependencies :: int
  npm_lastPublished :: "string member"
  npm_maintainers :: "string list"
  npm_homepage :: "string option"
  npm_keywords :: "string list"

record PyPiEnrichment =
  pypi_downloads :: int
  pypi_latestVersion :: string
  pypi_requiresPython :: "string option"
  pypi_lastPublished :: string
  pypi_author :: "string option"
  pypi_authorEmail :: "string option"
  pypi_homepage :: "string option"
  pypi_keywords :: "string list"

record NuGetEnrichment =
  nuget_totalDownloads :: int
  nuget_latestVersion :: string
  nuget_lastPublished :: string
  nuget_authors :: "string list"
  nuget_tags :: "string list"
  nuget_projectUrl :: "string option"

record DockerEnrichment =
  docker_pulls :: int
  docker_stars :: int
  docker_lastUpdated :: string
  docker_tags :: "string list"
  docker_description :: "string option"
  docker_isOfficial :: bool
  docker_isAutomated :: bool

record McpbEnrichment =
  mcpb_releaseUrl :: string
  mcpb_downloadCount :: int
  mcpb_assetSize :: int
  mcpb_lastRelease :: string
  mcpb_platforms :: "string list"
  mcpb_tagName :: string
  mcpb_prerelease :: bool

record Enrichment =
  lastEnrichedAt :: string
  github :: "GitHubEnrichment option"
  npm :: "NpmEnrichment option"
  pypi :: "PyPiEnrichment option"
  nuget :: "NuGetEnrichment option"
  docker :: "DockerEnrichment option"
  mcpb :: "McpbEnrichment option"

record Computed =
  organization :: string
  serverName :: string
  packageTypes :: "RegistryType list"
  hasRemote :: bool
  totalDownloads :: int
  stars :: int

record MCPServer =
  name :: string
  description :: string
  version :: string
  repository :: "Repository option"
  packages :: "Package list"
  remotes :: "Remote list"
  status :: ServerStatus
  publishedAt :: string
  updatedAt :: string
  isLatest :: bool
  enrichment :: Enrichment
  computed :: Computed

section \<open>JavaScript built-ins used by the derived-field computation\<close>

text \<open>\<open>String.prototype.split\<close> with a one-character separator: the pieces between
  the separators, never an empty list (\<open>"".split("/")\<close> is \<open>[""]\<close>).\<close>

fun split_on :: "char \<Rightarrow> string \<Rightarrow> string list" where
  "split_on c [] = [[]]"
| "split_on c (x # xs) =
     (if x = c then [] # split_on c xs
      else (x # hd (split_on c xs)) # tl (split_on c xs))"

text \<open>\<open>new Set(xs)\<close> spread back into an array: every value once, in the order of
  first insertion.\<close>

definition set_add :: "'a list \<Rightarrow> 'a \<Rightarrow> 'a list" where
  "set_add s x = (if x \<in> set s then s else s @ [x])"

definition new_Set :: "'a list \<Rightarrow> 'a list" where
  "new_Set xs = foldl set_add [] xs"

text \<open>Truthiness of a number: \<open>if (n)\<close> fails exactly for zero (NaN does not occur
  among integers).\<close>

definition truthy_num :: "int \<Rightarrow> bool" where
  "truthy_num n = (n \<noteq> 0)"

text \<open>
  \<open>a + b\<close> on numbers. A JavaScript number is an IEEE 754 double: 53 significant
  bits. The sum of two integer-valued doubles is their exact sum rounded to the
  nearest double, a tie going to the even significand. \<open>significand_shift m\<close> is
  the number of low bits that a magnitude \<open>m\<close> loses. (Sums whose magnitude
  exceeds the largest double, near \<open>2 ^ 1024\<close>, become \<open>Infinity\<close> in the source;
  the model keeps rounding them.)
\<close>

function significand_shift :: "nat \<Rightarrow> nat" where
  "significand_shift m = (if m < 2 ^ 53 then 0 else Suc (significand_shift (m div 2)))"
  by pat_completeness auto
termination
  by (relation "measure (\<lambda>m. m)") auto

declare significand_shift.simps [simp del]

definition to_double :: "int \<Rightarrow> int" where
  "to_double n =
    (let m = nat \<bar>n\<bar>;
         e = significand_shift m;
         q = m div 2 ^ e;
         r = m mod 2 ^ e;
         q' = (if 2 * r > 2 ^ e \<or> (2 * r = 2 ^ e \<and> odd q) then q + 1 else q)
     in sgn n * int (q' * 2 ^ e))"

definition js_add :: "int \<Rightarrow> int \<Rightarrow> int" where
  "js_add a b = to_double (a + b)"

section \<open>Derived fields (scripts/enrichers/index.ts, computeServerFields)\<close>

definition computeServerFields :: "MCPServer \<Rightarrow> MCPServer" where
  "computeServerFields s =
    (let nameParts = split_on CHR ''/'' (name s);
         organization' = (if length nameParts > 1 then nameParts ! 0 else '''');
         serverName' = (if length nameParts > 1 then nameParts ! 1 else nameParts ! 0);
         packageTypes' = new_Set (map registryType (packages s));
         hasRemote' = (length (remotes s) > 0);
         t0 = (0::int);
         t1 = (case npm (enrichment s) of
                 Some e \<Rightarrow> if truthy_num (npm_monthlyDownloads e)
                           then js_add t0 (npm_monthlyDownloads e) else t0
               | None \<Rightarrow> t0);
         t2 = (case pypi (enrichment s) of
                 Some e \<Rightarrow> if truthy_num (pypi_downloads e)
                           then js_add t1 (pypi_downloads e) else t1
               | None \<Rightarrow> t1);
         t3 = (case nuget (enrichment s) of
                 Some e \<Rightarrow> if truthy_num (nuget_totalDownloads e)
                           then js_add t2 (nuget_totalDownloads e) else t2
               | None \<Rightarrow> t2);
         t4 = (case docker (enrichment s) of
                 Some e \<Rightarrow> if truthy_num (docker_pulls e)
                           then js_add t3 (docker_pulls e) else t3
               | None \<Rightarrow> t3);
         t5 = (case mcpb (enrichment s) of
                 Some e \<Rightarrow> if truthy_num (mcpb_downloadCount e)
                           then js_add t4 (mcpb_downloadCount e) else t4
               | None \<Rightarrow> t4);
         stars' = (case github (enrichment s) of
                     Some g \<Rightarrow> if truthy_num (gh_stars g) then gh_stars g else 0
                   | None \<Rightarrow> 0)
     in s\<lparr>computed :=
            \<lparr>organization = organization', serverName = serverName',
             packageTypes = packageTypes', hasRemote = hasRemote',
             totalDownloads = t5, stars = stars'\<rparr>\<rparr>)"

section \<open>Resilient fetch (scripts/utils/fetch.ts)\<close>

text \<open>
  A value caught from a failed \<open>fetch\<close>: either an object, of which the retry
  logic reads \<open>code\<close>, \<open>name\<close>, \<open>message\<close> and \<open>cause.code\<close>, or anything that is
  not an object.
\<close>

record js_error =
  err_code :: "string option"
  err_name :: "string option"
  err_message :: "string option"
  err_cause_code :: "string option"

datatype thrown = ErrorObject js_error | NonObject

text \<open>A response: its status and what \<open>json()\<close> gives (\<open>None\<close> when parsing throws).\<close>

record 'b response =
  resp_status :: int
  resp_body :: "'b option"

definition ok :: "('b, 'z) response_scheme \<Rightarrow> bool" where
  "ok r = (200 \<le> resp_status r \<and> resp_status r \<le> 299)"

datatype 'r fetch_outcome = Responded 'r | Threw thrown

text \<open>What the retry loop does besides returning: the attempts it starts (with the
  attempt number and the timeout armed for it) and the back-off sleeps.\<close>

datatype fetch_event = Attempt nat int | Sleep int

fun starts_with :: "string \<Rightarrow> string \<Rightarrow> bool" where
  "starts_with s [] = True"
| "starts_with [] (p # ps) = False"
| "starts_with (x # xs) (p # ps) = (x = p \<and> starts_with xs ps)"

fun str_includes :: "string \<Rightarrow> string \<Rightarrow> bool" where
  "str_includes [] p = (p = [])"
| "str_includes (x # xs) p = (starts_with (x # xs) p \<or> str_includes xs p)"

definition isRetriableError :: "thrown \<Rightarrow> bool" where
  "isRetriableError error =
    (case error of
       NonObject \<Rightarrow> False
     | ErrorObject err \<Rightarrow>
         if err_code err = Some ''UND_ERR_CONNECT_TIMEOUT'' \<or>
            err_code err = Some ''ETIMEDOUT'' \<or>
            err_code err = Some ''ECONNREFUSED'' \<or>
            err_code err = Some ''ECONNRESET'' then True
         else if err_name err = Some ''AbortError'' then True
         else if (case err_message err of
                    Some m \<Rightarrow> str_includes m ''fetch failed'' | None \<Rightarrow> False) then True
         else if err_cause_code err = Some ''UND_ERR_CONNECT_TIMEOUT'' then True
         else False)"

definition max_retries_error :: thrown where
  "max_retries_error =
     ErrorObject \<lparr>err_code = None, err_name = Some ''Error'',
                  err_message = Some ''Max retries exceeded'', err_cause_code = None\<rparr>"

text \<open>
  The \<open>for\<close> loop of \<open>fetchWithRetry\<close>, entered at \<open>attempt\<close>. The network is the
  function \<open>fetch\<close>: the outcome of the attempt with the given number under the
  given timeout. The statement after the loop is reached only when the loop body
  never ran, with \<open>lastError\<close> still undefined.
\<close>

function fetchWithRetry_loop ::
  "(nat \<Rightarrow> int \<Rightarrow> 'r fetch_outcome) \<Rightarrow> int \<Rightarrow> int \<Rightarrow> nat \<Rightarrow> thrown option
     \<Rightarrow> (thrown + 'r) \<times> fetch_event list" where
  "fetchWithRetry_loop fetch maxRetries baseTimeout attempt lastError =
    (if int attempt \<le> maxRetries then
       (let timeout = baseTimeout * int attempt in
        case fetch attempt timeout of
          Responded r \<Rightarrow> (Inr r, [Attempt attempt timeout])
        | Threw error \<Rightarrow>
            (let shouldRetry = isRetriableError error in
             if \<not> shouldRetry \<or> int attempt = maxRetries
             then (Inl error, [Attempt attempt timeout])
             else (case fetchWithRetry_loop fetch maxRetries baseTimeout
                          (attempt + 1) (Some error) of
                     (res, evs) \<Rightarrow>
                       (res, Attempt attempt timeout # Sleep (1000 * int attempt) # evs))))
     else (Inl (case lastError of Some e \<Rightarrow> e | None \<Rightarrow> max_retries_error), []))"
  by pat_completeness auto
termination
  by (relation "measure (\<lambda>(fetch, maxRetries, baseTimeout, attempt, lastError).
                  nat (maxRetries + 1 - int attempt))") auto

declare fetchWithRetry_loop.simps [simp del]

definition fetchWithRetry ::
  "(nat \<Rightarrow> int \<Rightarrow> 'r fetch_outcome) \<Rightarrow> int \<Rightarrow> int \<Rightarrow> (thrown + 'r) \<times> fetch_event list" where
  "fetchWithRetry fetch maxRetries baseTimeout =
     fetchWithRetry_loop fetch maxRetries baseTimeout 1 None"

section \<open>Registry client (scripts/registry.ts)\<close>

record FetchServersOptions =
  opt_limit :: "int option"
  opt_cursor :: "string option"
  opt_updatedSince :: "string option"

record MCPRegistryResponse =
  servers :: "MCPRegistryEntry list"
  metadata_count :: int
  metadata_nextCursor :: "string option"

text \<open>The query string sent to the registry.\<close>

record registry_query =
  q_limit :: int
  q_cursor :: "string option"
  q_updated_since :: "string option"

datatype registry_error =
    NetworkFailure thrown
  | RegistryApiError int
  | BodyParseError

definition DEFAULT_LIMIT :: int where
  "DEFAULT_LIMIT = 100"

text \<open>Truthiness of an optional string: undefined and the empty string are falsy.\<close>

definition truthy_str :: "string option \<Rightarrow> bool" where
  "truthy_str c = (case c of None \<Rightarrow> False | Some s \<Rightarrow> s \<noteq> [])"

text \<open>
  The registry is the function \<open>http\<close>: what the \<open>n\<close>-th request of the run gets for
  a query. \<open>fetchServers\<close> throws when \<open>fetch\<close> throws, when the response is not OK
  and when its body does not parse.
\<close>

definition fetchServers ::
  "(nat \<Rightarrow> registry_query \<Rightarrow> MCPRegistryResponse response fetch_outcome)
     \<Rightarrow> nat \<Rightarrow> FetchServersOptions \<Rightarrow> registry_error + MCPRegistryResponse" where
  "fetchServers http n options =
    (let limit = (case opt_limit options of None \<Rightarrow> DEFAULT_LIMIT | Some l \<Rightarrow> l);
         url = \<lparr>q_limit = limit,
                q_cursor = (if truthy_str (opt_cursor options) then opt_cursor options else None),
                q_updated_since = (if truthy_str (opt_updatedSince options)
                                   then opt_updatedSince options else None)\<rparr>
     in case http n url of
          Threw e \<Rightarrow> Inl (NetworkFailure e)
        | Responded response \<Rightarrow>
            if \<not> ok response then Inl (RegistryApiError (resp_status response))
            else (case resp_body response of
                    None \<Rightarrow> Inl BodyParseError
                  | Some data \<Rightarrow> Inr data))"

text \<open>
  The \<open>do ... while (cursor)\<close> loop of \<open>fetchAllServers\<close>. A registry that keeps
  returning cursors keeps the loop running: not returning is the value \<open>None\<close>.
\<close>

partial_function (option) fetchAllServers_loop ::
  "(nat \<Rightarrow> registry_query \<Rightarrow> MCPRegistryResponse response fetch_outcome)
     \<Rightarrow> FetchServersOptions \<Rightarrow> string option \<Rightarrow> nat \<Rightarrow> MCPRegistryEntry list
     \<Rightarrow> (registry_error + MCPRegistryEntry list) option" where
  "fetchAllServers_loop http options cursor pageCount allServers =
    (case fetchServers http (pageCount + 1) (options\<lparr>opt_cursor := cursor\<rparr>) of
       Inl e \<Rightarrow> Some (Inl e)
     | Inr response \<Rightarrow>
         (let latestServers = filter (\<lambda>entry. meta_isLatest (meta entry)) (servers response);
              allServers' = allServers @ latestServers;
              cursor' = metadata_nextCursor response
          in if truthy_str cursor'
             then fetchAllServers_loop http options cursor' (pageCount + 1) allServers'
             else Some (Inr allServers')))"

definition fetchAllServers ::
  "(nat \<Rightarrow> registry_query \<Rightarrow> MCPRegistryResponse response fetch_outcome)
     \<Rightarrow> FetchServersOptions \<Rightarrow> (registry_error + MCPRegistryEntry list) option" where
  "fetchAllServers http options = fetchAllServers_loop http options None 0 []"

definition fetchUpdatedServers ::
  "(nat \<Rightarrow> registry_query \<Rightarrow> MCPRegistryResponse response fetch_outcome)
     \<Rightarrow> string \<Rightarrow> (registry_error + MCPRegistryEntry list) option" where
  "fetchUpdatedServers http since =
     fetchAllServers http \<lparr>opt_limit = None, opt_cursor = None, opt_updatedSince = Some since\<rparr>"

section \<open>The npm enricher (scripts/enrichers/npm.ts)\<close>

record NpmDistTags =
  dt_latest :: "string option"

record NpmVersionData =
  nv_dependencies :: "(string \<times> string) list option"

record NpmPackageResponse =
  npr_name :: string
  npr_dist_tags :: "NpmDistTags option"
  npr_time :: "(string \<times> string) list"
  npr_maintainers :: "string list option"
  npr_homepage :: "string option"
  npr_keywords :: "string list option"
  npr_versions :: "(string \<times> NpmVersionData) list"

record NpmDownloadsResponse =
  ndr_downloads :: "int option"
  ndr_start :: string
  ndr_end :: string
  ndr_package :: string

datatype npm_period = LastWeek | LastMonth

text \<open>The two npm hosts: the outcome of each attempt of a request for a package,
  and the order in which the three requests made for a package settle (their
  positions 0, 1, 2 in the array given to \<open>Promise.all\<close>).\<close>

record npm_world =
  npm_registry :: "string \<Rightarrow> nat \<Rightarrow> int \<Rightarrow> NpmPackageResponse response fetch_outcome"
  npm_api :: "npm_period \<Rightarrow> string \<Rightarrow> nat \<Rightarrow> int \<Rightarrow> NpmDownloadsResponse response fetch_outcome"
  npm_settle_order :: "string \<Rightarrow> nat list"

text \<open>What \<open>response.json()\<close> throws on a body that is not JSON.\<close>

definition json_syntax_error :: thrown where
  "json_syntax_error =
     ErrorObject \<lparr>err_code = None, err_name = Some ''SyntaxError'',
                  err_message = Some ''Unexpected token'', err_cause_code = None\<rparr>"

definition findNpmPackage :: "MCPServer \<Rightarrow> string option" where
  "findNpmPackage srv =
    (case find (\<lambda>pkg. registryType pkg = Npm) (packages srv) of
       None \<Rightarrow> None
     | Some npmPackage \<Rightarrow>
         if pkg_identifier npmPackage = [] then None else Some (pkg_identifier npmPackage))"

definition fetchPackageData :: "npm_world \<Rightarrow> string \<Rightarrow> thrown + NpmPackageResponse option" where
  "fetchPackageData w packageName =
    (case fst (fetchWithRetry (npm_registry w packageName) 3 10000) of
       Inl e \<Rightarrow> Inl e
     | Inr response \<Rightarrow>
         if resp_status response = 404 then Inr None
         else if \<not> ok response then Inr None
         else (case resp_body response of
                 None \<Rightarrow> Inl json_syntax_error
               | Some data \<Rightarrow> Inr (Some data)))"

definition fetchDownloads :: "npm_world \<Rightarrow> string \<Rightarrow> npm_period \<Rightarrow> thrown + int" where
  "fetchDownloads w packageName period =
    (case fst (fetchWithRetry (npm_api w period packageName) 3 10000) of
       Inl e \<Rightarrow> Inl e
     | Inr response \<Rightarrow>
         if \<not> ok response then Inr 0
         else (case resp_body response of
                 None \<Rightarrow> Inl json_syntax_error
               | Some data \<Rightarrow>
                   Inr (case ndr_downloads data of
                          None \<Rightarrow> 0
                        | Some d \<Rightarrow> if truthy_num d then d else 0)))"

text \<open>
  \<open>Promise.all\<close> of the three requests: the values when all three are fulfilled;
  when some are rejected, the rejection of the one that settles first. \<open>order\<close>
  lists the positions of the promises in the order in which they settle; a
  position it leaves out settles after those it lists, in array order.
\<close>

definition rejection :: "thrown + 'a \<Rightarrow> thrown option" where
  "rejection p = (case p of Inl e \<Rightarrow> Some e | Inr v \<Rightarrow> None)"

definition promise_all3 ::
  "nat list \<Rightarrow> thrown + 'a \<Rightarrow> thrown + 'b \<Rightarrow> thrown + 'c \<Rightarrow> thrown + ('a \<times> 'b \<times> 'c)" where
  "promise_all3 order a b c =
    (let rejections = [rejection a, rejection b, rejection c]
     in case List.find (\<lambda>i. i < 3 \<and> rejections ! i \<noteq> None) (order @ [0, 1, 2]) of
          Some i \<Rightarrow> Inl (the (rejections ! i))
        | None \<Rightarrow>
           (case a of
              Inl e \<Rightarrow> Inl e
            | Inr x \<Rightarrow>
               (case b of
                  Inl e \<Rightarrow> Inl e
                | Inr y \<Rightarrow> (case c of Inl e \<Rightarrow> Inl e | Inr z \<Rightarrow> Inr (x, y, z)))))"

text \<open>The names that every object inherits from \<open>Object.prototype\<close>, and the
  property access \<open>obj[key]\<close> on a parsed JSON object.\<close>

definition Object_prototype_names :: "string list" where
  "Object_prototype_names =
     [''constructor'', ''__defineGetter__'', ''__defineSetter__'', ''hasOwnProperty'',
      ''__lookupGetter__'', ''__lookupSetter__'', ''isPrototypeOf'',
      ''propertyIsEnumerable'', ''toString'', ''valueOf'', ''__proto__'',
      ''toLocaleString'']"

definition js_get :: "(string \<times> 'a) list \<Rightarrow> string \<Rightarrow> 'a member" where
  "js_get obj key =
    (case map_of obj key of
       Some v \<Rightarrow> Own v
     | None \<Rightarrow> if key \<in> set Object_prototype_names then Inherited else Missing)"

text \<open>Truthiness of such a value: the empty string and \<open>undefined\<close> are falsy, any
  object is truthy.\<close>

definition truthy_member :: "string member \<Rightarrow> bool" where
  "truthy_member v = (case v of Own s \<Rightarrow> s \<noteq> [] | Inherited \<Rightarrow> True | Missing \<Rightarrow> False)"

definition enrichNpm :: "npm_world \<Rightarrow> MCPServer \<Rightarrow> thrown + NpmEnrichment option" where
  "enrichNpm w srv =
    (case findNpmPackage srv of
       None \<Rightarrow> Inr None
     | Some packageName \<Rightarrow>
        (case promise_all3 (npm_settle_order w packageName)
                (fetchPackageData w packageName)
                (fetchDownloads w packageName LastWeek)
                (fetchDownloads w packageName LastMonth) of
           Inl e \<Rightarrow> Inl e
         | Inr (packageData', weeklyDownloads, monthlyDownloads) \<Rightarrow>
            (case packageData' of
               None \<Rightarrow> Inr None
             | Some packageData \<Rightarrow>
                (case npr_dist_tags packageData of
                   None \<Rightarrow> Inr None
                 | Some dist_tags \<Rightarrow>
                    (case dt_latest dist_tags of
                       None \<Rightarrow> Inr None
                     | Some latestVersion \<Rightarrow>
                        if latestVersion = [] then Inr None
                        else
                          (let latestVersionData = js_get (npr_versions packageData) latestVersion;
                               dependencyCount =
                                 (case latestVersionData of
                                    Own d \<Rightarrow>
                                      (case nv_dependencies d of
                                         None \<Rightarrow> 0
                                       | Some deps \<Rightarrow> int (length (remdups (map fst deps))))
                                  | Inherited \<Rightarrow> 0
                                  | Missing \<Rightarrow> 0)
                           in Inr (Some
                                \<lparr>npm_weeklyDownloads = weeklyDownloads,
                                 npm_monthlyDownloads = monthlyDownloads,
                                 npm_latestVersion = latestVersion,
                                 npm_dependencies = dependencyCount,
                                 npm_lastPublished =
                                   (if truthy_member (js_get (npr_time packageData) latestVersion)
                                    then js_get (npr_time packageData) latestVersion
                                    else js_get (npr_time packageData) ''modified''),
                                 npm_maintainers =
                                   (case npr_maintainers packageData of
                                      None \<Rightarrow> [] | Some ms \<Rightarrow> ms),
                                 npm_homepage = npr_homepage packageData,
                                 npm_keywords =
                                   (case npr_keywords packageData of
                                      None \<Rightarrow> [] | Some ks \<Rightarrow> ks)\<rparr>)))))))"

section \<open>The clock\<close>

text \<open>
  \<open>Date.prototype.toISOString\<close> of a time given in milliseconds since the epoch:
  \<open>YYYY-MM-DDTHH:mm:ss.sssZ\<close>, the year with a sign and six digits outside
  0..9999.
\<close>

fun dec_digits :: "nat \<Rightarrow> nat \<Rightarrow> string" where
  "dec_digits 0 n = []"
| "dec_digits (Suc w) n = dec_digits w (n div 10) @ [char_of (48 + n mod 10)]"

definition civil_from_days :: "int \<Rightarrow> int \<times> int \<times> int" where
  "civil_from_days z0 =
    (let z = z0 + 719468;
         era = z div 146097;
         doe = z - era * 146097;
         yoe = (doe - doe div 1460 + doe div 36524 - doe div 146096) div 365;
         y = yoe + era * 400;
         doy = doe - (365 * yoe + yoe div 4 - yoe div 100);
         mp = (5 * doy + 2) div 153;
         d = doy - (153 * mp + 2) div 5 + 1;
         m = (if mp < 10 then mp + 3 else mp - 9)
     in (if m \<le> 2 then y + 1 else y, m, d))"

definition toISOString :: "int \<Rightarrow> string" where
  "toISOString t =
    (let msOfDay = t mod 86400000;
         (y, m, d) = civil_from_days (t div 86400000);
         year = (if 0 \<le> y \<and> y \<le> 9999 then dec_digits 4 (nat y)
                 else (if y < 0 then ''-'' else ''+'') @ dec_digits 6 (nat \<bar>y\<bar>))
     in year @ ''-'' @ dec_digits 2 (nat m) @ ''-'' @ dec_digits 2 (nat d) @ ''T'' @
        dec_digits 2 (nat (msOfDay div 3600000)) @ '':'' @
        dec_digits 2 (nat (msOfDay div 60000 mod 60)) @ '':'' @
        dec_digits 2 (nat (msOfDay div 1000 mod 60)) @ ''.'' @
        dec_digits 3 (nat (msOfDay mod 1000)) @ ''Z'')"

section \<open>Enrichment coordinator (scripts/enrichers/index.ts)\<close>

text \<open>
  An optional property of an options object, \<open>delayMs?: number\<close>: the caller
  leaves it out, or sets it to \<open>undefined\<close>, or sets it to a value.
\<close>

datatype 'a property = Absent | Undefined | Value 'a

record EnrichmentOptions =
  delayMs :: "int property"
  concurrency :: "int property"
  skipIfFresh :: "bool property"
  maxAge :: "int property"

text \<open>
  The object \<open>opts\<close> that the spread builds has all four properties; one that the
  caller set to \<open>undefined\<close> holds \<open>undefined\<close> (\<open>None\<close>).
\<close>

record RequiredOptions =
  req_delayMs :: "int option"
  req_concurrency :: "int option"
  req_skipIfFresh :: "bool option"
  req_maxAge :: "int option"

definition DEFAULT_OPTIONS :: RequiredOptions where
  "DEFAULT_OPTIONS =
     \<lparr>req_delayMs = Some 100, req_concurrency = Some 3, req_skipIfFresh = Some True,
      req_maxAge = Some (24 * 60 * 60 * 1000)\<rparr>"

text \<open>\<open>{ ...DEFAULT_OPTIONS, ...options }\<close>: every property that \<open>options\<close> has
  overwrites the default, also one whose value is \<open>undefined\<close>.\<close>

definition spread :: "'a option \<Rightarrow> 'a property \<Rightarrow> 'a option" where
  "spread d p = (case p of Absent \<Rightarrow> d | Undefined \<Rightarrow> None | Value v \<Rightarrow> Some v)"

definition merge_options :: "RequiredOptions \<Rightarrow> EnrichmentOptions \<Rightarrow> RequiredOptions" where
  "merge_options d options =
     \<lparr>req_delayMs = spread (req_delayMs d) (delayMs options),
      req_concurrency = spread (req_concurrency d) (concurrency options),
      req_skipIfFresh = spread (req_skipIfFresh d) (skipIfFresh options),
      req_maxAge = spread (req_maxAge d) (maxAge options)\<rparr>"

text \<open>\<open>opts\<close> passed on as the \<open>options\<close> of a call: all four properties present.\<close>

definition present :: "'a option \<Rightarrow> 'a property" where
  "present v = (case v of None \<Rightarrow> Undefined | Some x \<Rightarrow> Value x)"

definition as_options :: "RequiredOptions \<Rightarrow> EnrichmentOptions" where
  "as_options r =
     \<lparr>delayMs = present (req_delayMs r), concurrency = present (req_concurrency r),
      skipIfFresh = present (req_skipIfFresh r), maxAge = present (req_maxAge r)\<rparr>"

text \<open>\<open>Partial<Enrichment>\<close>, the result type of an enricher: every key optional.\<close>

record PartialEnrichment =
  p_lastEnrichedAt :: "string option"
  p_github :: "GitHubEnrichment option"
  p_npm :: "NpmEnrichment option"
  p_pypi :: "PyPiEnrichment option"
  p_nuget :: "NuGetEnrichment option"
  p_docker :: "DockerEnrichment option"
  p_mcpb :: "McpbEnrichment option"

definition no_keys :: PartialEnrichment where
  "no_keys = \<lparr>p_lastEnrichedAt = None, p_github = None, p_npm = None, p_pypi = None,
              p_nuget = None, p_docker = None, p_mcpb = None\<rparr>"

text \<open>\<open>Object.assign(enrichment, result)\<close>: the keys of \<open>result\<close> overwrite.\<close>

definition object_assign :: "Enrichment \<Rightarrow> PartialEnrichment \<Rightarrow> Enrichment" where
  "object_assign e r =
     \<lparr>lastEnrichedAt = (case p_lastEnrichedAt r of None \<Rightarrow> lastEnrichedAt e | Some v \<Rightarrow> v),
      github = (case p_github r of None \<Rightarrow> github e | Some v \<Rightarrow> Some v),
      npm = (case p_npm r of None \<Rightarrow> npm e | Some v \<Rightarrow> Some v),
      pypi = (case p_pypi r of None \<Rightarrow> pypi e | Some v \<Rightarrow> Some v),
      nuget = (case p_nuget r of None \<Rightarrow> nuget e | Some v \<Rightarrow> Some v),
      docker = (case p_docker r of None \<Rightarrow> docker e | Some v \<Rightarrow> Some v),
      mcpb = (case p_mcpb r of None \<Rightarrow> mcpb e | Some v \<Rightarrow> Some v)\<rparr>"

text \<open>
  The world of one call of \<open>enrichServer\<close>. The clock: the time at which the call
  is made and the time elapsed until \<open>Date.now()\<close> is read for the freshness check
  and until \<open>new Date()\<close> is read for the stamp. \<open>date_parse\<close> is
  \<open>new Date(s).getTime()\<close>, \<open>None\<close> for NaN. The npm enricher runs on its two
  hosts; each of the other five enrichers is taken by its declared result: it
  throws, returns null, or returns an object with its own key.
\<close>

record enrich_world =
  call_time :: int
  check_elapsed :: nat
  stamp_elapsed :: nat
  date_parse :: "string \<Rightarrow> int option"
  run_enrichGitHub :: "MCPServer \<Rightarrow> thrown + GitHubEnrichment option"
  npm_net :: npm_world
  run_enrichPyPi :: "MCPServer \<Rightarrow> thrown + PyPiEnrichment option"
  run_enrichNuGet :: "MCPServer \<Rightarrow> thrown + NuGetEnrichment option"
  run_enrichDocker :: "MCPServer \<Rightarrow> thrown + DockerEnrichment option"
  run_enrichMcpb :: "MCPServer \<Rightarrow> thrown + McpbEnrichment option"

definition Date_now :: "enrich_world \<Rightarrow> int" where
  "Date_now w = call_time w + int (check_elapsed w)"

text \<open>\<open>maxAge\<close> is \<open>opts.maxAge\<close>, which can hold \<open>undefined\<close>; \<open>age < undefined\<close> is
  false, as is every comparison with the NaN of an unparsable date.\<close>

definition isEnrichmentFresh :: "enrich_world \<Rightarrow> MCPServer \<Rightarrow> int option \<Rightarrow> bool" where
  "isEnrichmentFresh w srv maxAge' =
    (let lastEnriched = lastEnrichedAt (enrichment srv)
     in if lastEnriched = [] then False
        else (case date_parse w lastEnriched of
                None \<Rightarrow> False
              | Some t \<Rightarrow>
                  (let age = Date_now w - t
                   in case maxAge' of None \<Rightarrow> False | Some m \<Rightarrow> age < m)))"

text \<open>An enricher's result as the object it returns: its own key only.\<close>

definition keyed ::
  "('a \<Rightarrow> PartialEnrichment) \<Rightarrow> thrown + 'a option \<Rightarrow> thrown + PartialEnrichment option" where
  "keyed mk r = (case r of Inl e \<Rightarrow> Inl e | Inr v \<Rightarrow> Inr (map_option mk v))"

type_synonym EnricherFn = "MCPServer \<Rightarrow> thrown + PartialEnrichment option"

definition enrichers :: "enrich_world \<Rightarrow> (string \<times> EnricherFn) list" where
  "enrichers w =
     [(''GitHub'', \<lambda>s. keyed (\<lambda>v. no_keys\<lparr>p_github := Some v\<rparr>) (run_enrichGitHub w s)),
      (''npm'', \<lambda>s. keyed (\<lambda>v. no_keys\<lparr>p_npm := Some v\<rparr>) (enrichNpm (npm_net w) s)),
      (''PyPI'', \<lambda>s. keyed (\<lambda>v. no_keys\<lparr>p_pypi := Some v\<rparr>) (run_enrichPyPi w s)),
      (''NuGet'', \<lambda>s. keyed (\<lambda>v. no_keys\<lparr>p_nuget := Some v\<rparr>) (run_enrichNuGet w s)),
      (''Docker'', \<lambda>s. keyed (\<lambda>v. no_keys\<lparr>p_docker := Some v\<rparr>) (run_enrichDocker w s)),
      (''MCPB'', \<lambda>s. keyed (\<lambda>v. no_keys\<lparr>p_mcpb := Some v\<rparr>) (run_enrichMcpb w s))]"

text \<open>What the coordinator does besides returning: the enrichers it invokes, the
  errors it catches from them, and its sleeps, each with the argument given to
  \<open>sleep\<close> (\<open>None\<close> when that is not a number: \<open>undefined\<close>, or \<open>undefined * 2\<close>).\<close>

datatype enrich_event = Invoked string | Caught string thrown | Slept "int option"

text \<open>The \<open>for (const { name, fn } of enrichers)\<close> loop with its \<open>try\<close>/\<open>catch\<close>.\<close>

fun run_enrichers ::
  "(string \<times> EnricherFn) list \<Rightarrow> int option \<Rightarrow> MCPServer \<Rightarrow> Enrichment \<Rightarrow> enrich_event list
     \<Rightarrow> Enrichment \<times> enrich_event list" where
  "run_enrichers [] delay srv e evs = (e, evs)"
| "run_enrichers ((nm, fn) # rest) delay srv e evs =
     (case fn srv of
        Inr (Some result) \<Rightarrow>
          run_enrichers rest delay srv (object_assign e result) (evs @ [Invoked nm, Slept delay])
      | Inr None \<Rightarrow>
          run_enrichers rest delay srv e (evs @ [Invoked nm, Slept delay])
      | Inl error \<Rightarrow>
          run_enrichers rest delay srv e (evs @ [Invoked nm, Caught nm error, Slept delay]))"

definition enrichServer ::
  "enrich_world \<Rightarrow> MCPServer \<Rightarrow> EnrichmentOptions \<Rightarrow> MCPServer \<times> enrich_event list" where
  "enrichServer w srv options =
    (let opts = merge_options DEFAULT_OPTIONS options
     in if req_skipIfFresh opts = Some True \<and> isEnrichmentFresh w srv (req_maxAge opts)
        then (srv, [])
        else
          (let enrichment0 = (enrichment srv)
                 \<lparr>lastEnrichedAt := toISOString (call_time w + int (stamp_elapsed w))\<rparr>;
               (enrichment', evs) = run_enrichers (enrichers w) (req_delayMs opts) srv enrichment0 []
           in (srv\<lparr>enrichment := enrichment'\<rparr>, evs)))"

text \<open>
  \<open>queue.splice(0, deleteCount)\<close> removes \<open>deleteCount\<close> elements from the front,
  none when \<open>deleteCount\<close> is \<open>undefined\<close> or below one.
\<close>

definition splice_count :: "int option \<Rightarrow> nat" where
  "splice_count deleteCount = (case deleteCount of None \<Rightarrow> 0 | Some c \<Rightarrow> nat c)"

text \<open>
  The \<open>while (queue.length > 0)\<close> loop of \<open>enrichServers\<close>. \<open>worlds i\<close> is the
  world of the call for the \<open>i\<close>-th record of the input. The calls of one batch
  run concurrently; the model lists their events record by record. When
  \<open>splice\<close> removes nothing the queue stays as it is, and the loop never ends.
\<close>

partial_function (option) enrichServers_loop ::
  "(nat \<Rightarrow> enrich_world) \<Rightarrow> RequiredOptions \<Rightarrow> MCPServer list \<Rightarrow> nat \<Rightarrow> MCPServer list
     \<Rightarrow> enrich_event list \<Rightarrow> (MCPServer list \<times> enrich_event list) option" where
  "enrichServers_loop worlds opts queue started results evs =
    (if length queue > 0 then
       (let batch = take (splice_count (req_concurrency opts)) queue;
            queue' = drop (splice_count (req_concurrency opts)) queue;
            batchResults = map (\<lambda>(i, srv). enrichServer (worlds i) srv (as_options opts))
                               (enumerate started batch);
            results' = results @ map fst batchResults;
            evs' = evs @ concat (map snd batchResults) @
                   (if length queue' > 0
                    then [Slept (map_option (\<lambda>d. d * 2) (req_delayMs opts))] else [])
        in enrichServers_loop worlds opts queue' (started + length batch) results' evs')
     else Some (results, evs))"

definition enrichServers ::
  "(nat \<Rightarrow> enrich_world) \<Rightarrow> MCPServer list \<Rightarrow> EnrichmentOptions
     \<Rightarrow> (MCPServer list \<times> enrich_event list) option" where
  "enrichServers worlds srvs options =
     enrichServers_loop worlds (merge_options DEFAULT_OPTIONS options) srvs 0 [] []"

section \<open>Sync orchestrator (scripts/sync.ts)\<close>

record SyncState =
  ss_lastSyncAt :: string
  ss_lastCursor :: "string option"
  ss_totalServers :: int
  ss_lastFullSyncAt :: string
  ss_version :: int

definition FULL_SYNC_INTERVAL_MS :: int where
  "FULL_SYNC_INTERVAL_MS = 7 * 24 * 60 * 60 * 1000"

text \<open>
  A JavaScript \<open>Map\<close> from names to records is an association list in insertion
  order: \<open>set\<close> replaces the value of a key in place or appends a new key
  (\<open>AList.update\<close>), \<open>delete\<close> removes the key (\<open>AList.delete\<close>), \<open>get\<close> is
  \<open>map_of\<close>, \<open>values()\<close> is \<open>map snd\<close>.
\<close>

type_synonym server_map = "(string \<times> MCPServer) list"

definition new_Map :: "(string \<times> MCPServer) list \<Rightarrow> server_map" where
  "new_Map pairs = foldl (\<lambda>m (k, v). AList.update k v m) [] pairs"

text \<open>The world of one run. \<open>prior_snapshot\<close> and \<open>prior_state\<close> are the parsed
  data files, \<open>None\<close> when the file is missing or unreadable. Writing the files
  is the value returned; failures of the file system are not modelled.
  \<open>collation_key\<close> orders names as \<open>localeCompare\<close> does.\<close>

record 'k sync_world =
  prior_snapshot :: "MCPServer list option"
  prior_state :: "SyncState option"
  env_FULL_SYNC :: "string option"
  sync_date_parse :: "string \<Rightarrow> int option"
  sync_Date_now :: int
  state_clock :: "nat \<Rightarrow> int"
  registry :: "nat \<Rightarrow> registry_query \<Rightarrow> MCPRegistryResponse response fetch_outcome"
  enrich_worlds :: "nat \<Rightarrow> enrich_world"
  collation_key :: "string \<Rightarrow> 'k"

definition loadServers :: "MCPServer list option \<Rightarrow> server_map" where
  "loadServers file =
    (case file of
       None \<Rightarrow> []
     | Some srvs \<Rightarrow> new_Map (map (\<lambda>s. (name s, s)) srvs))"

definition saveServers :: "(string \<Rightarrow> 'k::linorder) \<Rightarrow> MCPServer list \<Rightarrow> MCPServer list" where
  "saveServers key srvs = sort_key (\<lambda>s. key (name s)) srvs"

definition convertRegistryEntry :: "MCPRegistryEntry \<Rightarrow> MCPServer" where
  "convertRegistryEntry entry =
    (let meta' = meta entry
     in \<lparr>name = rs_name (server entry),
         description = rs_description (server entry),
         version = rs_version (server entry),
         repository = rs_repository (server entry),
         packages = (case rs_packages (server entry) of None \<Rightarrow> [] | Some ps \<Rightarrow> ps),
         remotes = (case rs_remotes (server entry) of None \<Rightarrow> [] | Some rs \<Rightarrow> rs),
         status = meta_status meta',
         publishedAt = meta_publishedAt meta',
         updatedAt = meta_updatedAt meta',
         isLatest = meta_isLatest meta',
         enrichment = \<lparr>lastEnrichedAt = [], github = None, npm = None, pypi = None,
                        nuget = None, docker = None, mcpb = None\<rparr>,
         computed = \<lparr>organization = [], serverName = [], packageTypes = [],
                      hasRemote = False, totalDownloads = 0, stars = 0\<rparr>\<rparr>)"

definition shouldDoFullSync :: "('k, 'z) sync_world_scheme \<Rightarrow> SyncState option \<Rightarrow> bool" where
  "shouldDoFullSync w state =
    (if env_FULL_SYNC w = Some ''true'' then True
     else (case state of
             None \<Rightarrow> True
           | Some st \<Rightarrow>
               (case sync_date_parse w (ss_lastFullSyncAt st) of
                  None \<Rightarrow> False
                | Some lastFullSync \<Rightarrow>
                    (let timeSinceFullSync = sync_Date_now w - lastFullSync
                     in if timeSinceFullSync > FULL_SYNC_INTERVAL_MS then True else False))))"

text \<open>The body of the loop \<open>for (const entry of entries)\<close>.\<close>

definition merge_entry :: "server_map \<Rightarrow> server_map \<Rightarrow> MCPRegistryEntry \<Rightarrow> server_map" where
  "merge_entry existingServers updatedServers entry =
    (let server0 = convertRegistryEntry entry;
         existing = map_of existingServers (name server0);
         server1 = (case existing of
                      None \<Rightarrow> server0
                    | Some ex \<Rightarrow>
                        if lastEnrichedAt (enrichment ex) \<noteq> []
                        then server0\<lparr>enrichment := enrichment ex\<rparr> else server0)
     in if status server1 = Deleted
        then AList.delete (name server1) updatedServers
        else AList.update (name server1) server1 updatedServers)"

datatype sync_error = RegistryFetchFailed registry_error | NullSyncState

record sync_result =
  res_doFullSync :: bool
  res_entries :: "MCPRegistryEntry list"
  res_updatedServers :: server_map
  res_events :: "enrich_event list"
  res_snapshot :: "MCPServer list"
  res_state :: SyncState

text \<open>The registry fetch of the run.\<close>

definition sync_fetch ::
  "('k, 'z) sync_world_scheme \<Rightarrow> bool \<Rightarrow> (sync_error + MCPRegistryEntry list) option" where
  "sync_fetch w doFullSync =
    (let fetched =
       (if doFullSync
        then map_option Inr
               (fetchAllServers (registry w)
                  \<lparr>opt_limit = None, opt_cursor = None, opt_updatedSince = None\<rparr>)
        else (case prior_state w of
                None \<Rightarrow> Some (Inl NullSyncState)
              | Some st \<Rightarrow> map_option Inr (fetchUpdatedServers (registry w) (ss_lastSyncAt st))))
     in case fetched of
          None \<Rightarrow> None
        | Some (Inl e) \<Rightarrow> Some (Inl e)
        | Some (Inr (Inl e)) \<Rightarrow> Some (Inl (RegistryFetchFailed e))
        | Some (Inr (Inr entries)) \<Rightarrow> Some (Inr entries))"

text \<open>The enrichment step: \<open>if (entries.length > 0) { ... }\<close>.\<close>

definition sync_enrich ::
  "(nat \<Rightarrow> enrich_world) \<Rightarrow> bool \<Rightarrow> MCPRegistryEntry list \<Rightarrow> server_map
     \<Rightarrow> (server_map \<times> enrich_event list) option" where
  "sync_enrich worlds doFullSync entries updatedServers =
    (let serversArray = map snd updatedServers
     in if length entries > 0 then
          (let serversToEnrich =
                 (if doFullSync then serversArray
                  else filter (\<lambda>s. list_ex (\<lambda>e. rs_name (server e) = name s) entries)
                         serversArray)
           in case enrichServers worlds serversToEnrich
                     \<lparr>delayMs = Value 200, concurrency = Value 2,
                      skipIfFresh = Value (\<not> doFullSync),
                      maxAge = Value (24 * 60 * 60 * 1000)\<rparr> of
                None \<Rightarrow> None
              | Some (enrichedServers, evs) \<Rightarrow>
                  Some (foldl (\<lambda>m s. AList.update (name s) s m) updatedServers enrichedServers,
                        evs))
        else Some (updatedServers, []))"

definition sync :: "'k::linorder sync_world \<Rightarrow> (sync_error + sync_result) option" where
  "sync w =
    (let existingServers = loadServers (prior_snapshot w);
         syncState = prior_state w;
         doFullSync = shouldDoFullSync w syncState
     in case sync_fetch w doFullSync of
          None \<Rightarrow> None
        | Some (Inl e) \<Rightarrow> Some (Inl e)
        | Some (Inr entries) \<Rightarrow>
            (let updatedServers = foldl (merge_entry existingServers) existingServers entries
             in case sync_enrich (enrich_worlds w) doFullSync entries updatedServers of
                  None \<Rightarrow> None
                | Some (updatedServers', evs) \<Rightarrow>
                    (let serversArray = map computeServerFields (map snd updatedServers');
                         snapshot = saveServers (collation_key w) serversArray;
                         newState =
                           \<lparr>ss_lastSyncAt = toISOString (state_clock w 0),
                            ss_lastCursor = None,
                            ss_totalServers = int (length serversArray),
                            ss_lastFullSyncAt =
                              (if doFullSync then toISOString (state_clock w 1)
                               else (case syncState of
                                       None \<Rightarrow> toISOString (state_clock w 1)
                                     | Some st \<Rightarrow>
                                         if ss_lastFullSyncAt st \<noteq> [] then ss_lastFullSyncAt st
                                         else toISOString (state_clock w 1))),
                            ss_version = 1\<rparr>
                     in Some (Inr \<lparr>res_doFullSync = doFullSync, res_entries = entries,
                                   res_updatedServers = updatedServers', res_events = evs,
                                   res_snapshot = snapshot, res_state = newState\<rparr>))))"

section \<open>Specification vocabulary and sample data\<close>

text \<open>The per-source download figures of a record, in the order npm, PyPI, NuGet,
  Docker, MCPB; a source that is absent counts as zero.\<close>

definition download_figures :: "Enrichment \<Rightarrow> int list" where
  "download_figures e =
     [case npm e of None \<Rightarrow> 0 | Some x \<Rightarrow> npm_monthlyDownloads x,
      case pypi e of None \<Rightarrow> 0 | Some x \<Rightarrow> pypi_downloads x,
      case nuget e of None \<Rightarrow> 0 | Some x \<Rightarrow> nuget_totalDownloads x,
      case docker e of None \<Rightarrow> 0 | Some x \<Rightarrow> docker_pulls x,
      case mcpb e of None \<Rightarrow> 0 | Some x \<Rightarrow> mcpb_downloadCount x]"

text \<open>\<open>add_figure\<close> is one statement \<open>if (figure) totalDownloads += figure\<close>. The
  figures of a record are in the exact range when their magnitudes add up to at
  most \<open>2 ^ 53\<close>: then no sum of some of them needs rounding.\<close>

definition add_figure :: "int \<Rightarrow> int \<Rightarrow> int" where
  "add_figure totalDownloads' figure =
     (if truthy_num figure then js_add totalDownloads' figure else totalDownloads')"

definition exact_range :: "Enrichment \<Rightarrow> bool" where
  "exact_range e = (sum_list (map abs (download_figures e)) \<le> 2 ^ 53)"

text \<open>The text of a name after its first \<open>/\<close>.\<close>

definition after_first_slash :: "string \<Rightarrow> string" where
  "after_first_slash s = tl (dropWhile (\<lambda>x. x \<noteq> CHR ''/'') s)"

definition before_first_slash :: "string \<Rightarrow> string" where
  "before_first_slash s = takeWhile (\<lambda>x. x \<noteq> CHR ''/'') s"

text \<open>A registry entry with one npm package, as the registry lists it.\<close>

definition sample_entry :: "string \<Rightarrow> string \<Rightarrow> ServerStatus \<Rightarrow> bool \<Rightarrow> MCPRegistryEntry" where
  "sample_entry n descr st latest =
     \<lparr>server =
        \<lparr>rs_name = n, rs_description = descr, rs_repository = None, rs_version = ''1.0.0'',
         rs_packages = Some [\<lparr>registryType = Npm, pkg_identifier = ''acme-tool'',
                               pkg_transport = None, pkg_environmentVariables = None,
                               pkg_fileSha256 = None\<rparr>],
         rs_remotes = None\<rparr>,
      meta = \<lparr>meta_status = st, meta_publishedAt = ''2024-01-01T00:00:00.000Z'',
              meta_updatedAt = ''2024-03-01T00:00:00.000Z'', meta_isLatest = latest\<rparr>\<rparr>"

definition sample_npm :: NpmEnrichment where
  "sample_npm =
     \<lparr>npm_weeklyDownloads = 1200, npm_monthlyDownloads = 5000, npm_latestVersion = ''1.0.0'',
      npm_dependencies = 2, npm_lastPublished = Own ''2024-01-01T00:00:00.000Z'',
      npm_maintainers = [''acme''], npm_homepage = None, npm_keywords = [''mcp'']\<rparr>"

definition sample_pypi :: PyPiEnrichment where
  "sample_pypi =
     \<lparr>pypi_downloads = 1, pypi_latestVersion = ''0.1.0'', pypi_requiresPython = None,
      pypi_lastPublished = ''2024-01-01T00:00:00.000Z'', pypi_author = None,
      pypi_authorEmail = None, pypi_homepage = None, pypi_keywords = []\<rparr>"

text \<open>The record of \<open>acme/tool\<close> once the npm enricher has reported 5000 monthly
  downloads and the enrichment was stamped at the given time.\<close>

definition sample_server :: "string \<Rightarrow> int \<Rightarrow> MCPServer" where
  "sample_server n t =
     (convertRegistryEntry (sample_entry n ''A tool'' Active True))
       \<lparr>enrichment := \<lparr>lastEnrichedAt = toISOString t, github = None, npm = Some sample_npm,
                       pypi = None, nuget = None, docker = None, mcpb = None\<rparr>\<rparr>"

text \<open>A record with \<open>2 ^ 53\<close> monthly npm downloads, and the same record with one
  PyPI download besides.\<close>

definition popular_server :: MCPServer where
  "popular_server =
     (sample_server ''acme/tool'' 0)
       \<lparr>enrichment := (enrichment (sample_server ''acme/tool'' 0))
          \<lparr>npm := Some (sample_npm\<lparr>npm_monthlyDownloads := 9007199254740992\<rparr>)\<rparr>\<rparr>"

definition popular_server_pypi :: MCPServer where
  "popular_server_pypi =
     popular_server\<lparr>enrichment := (enrichment popular_server)\<lparr>pypi := Some sample_pypi\<rparr>\<rparr>"

text \<open>
  Vocabulary for the retry policy, in the words of the specification. The
  retriable errors are of five kinds: a timeout, a refused connection, a reset
  connection, an abort caused by the timeout of the attempt, and a generic fetch
  failure. A thrown value is of a kind by the marks that Node.js and its
  \<open>fetch\<close> put on an error object: the codes \<open>ETIMEDOUT\<close> and
  \<open>UND_ERR_CONNECT_TIMEOUT\<close> (the latter also on the cause of the error),
  \<open>ECONNREFUSED\<close>, \<open>ECONNRESET\<close>, the name \<open>AbortError\<close>, and a message with the
  text \<open>fetch failed\<close> somewhere in it. Whatever is of none of these kinds, and
  whatever is not an object, is not retriable.
\<close>

datatype error_kind =
  Timeout | ConnectionRefused | ConnectionReset | AbortByTimeout | GenericFetchFailure

definition contains_text :: "string \<Rightarrow> string \<Rightarrow> bool" where
  "contains_text m p = (\<exists>before after. m = before @ p @ after)"

definition of_kind :: "thrown \<Rightarrow> error_kind \<Rightarrow> bool" where
  "of_kind e k =
    (case e of
       NonObject \<Rightarrow> False
     | ErrorObject err \<Rightarrow>
        (case k of
           Timeout \<Rightarrow>
             err_code err = Some ''ETIMEDOUT'' \<or>
             err_code err = Some ''UND_ERR_CONNECT_TIMEOUT'' \<or>
             err_cause_code err = Some ''UND_ERR_CONNECT_TIMEOUT''
         | ConnectionRefused \<Rightarrow> err_code err = Some ''ECONNREFUSED''
         | ConnectionReset \<Rightarrow> err_code err = Some ''ECONNRESET''
         | AbortByTimeout \<Rightarrow> err_name err = Some ''AbortError''
         | GenericFetchFailure \<Rightarrow>
             (\<exists>m. err_message err = Some m \<and> contains_text m ''fetch failed'')))"

definition retriable :: "thrown \<Rightarrow> bool" where
  "retriable e = (\<exists>k. of_kind e k)"

text \<open>An attempt fails retriably when \<open>fetch\<close> throws a retriable error. The run
  settles at attempt \<open>k\<close> when every earlier attempt failed retriably and attempt
  \<open>k\<close> is the last one allowed or did not fail retriably: it received a
  response, or threw an error that is not retriable.\<close>

definition retriable_failure :: "'r fetch_outcome \<Rightarrow> bool" where
  "retriable_failure out = (case out of Responded r \<Rightarrow> False | Threw e \<Rightarrow> retriable e)"

definition outcome_result :: "'r fetch_outcome \<Rightarrow> thrown + 'r" where
  "outcome_result out = (case out of Responded r \<Rightarrow> Inr r | Threw e \<Rightarrow> Inl e)"

definition settles_at :: "(nat \<Rightarrow> int \<Rightarrow> 'r fetch_outcome) \<Rightarrow> int \<Rightarrow> int \<Rightarrow> nat \<Rightarrow> bool" where
  "settles_at fetch maxRetries baseTimeout k =
     (1 \<le> k \<and> int k \<le> maxRetries \<and>
      (\<forall>i \<in> {1..<k}. retriable_failure (fetch i (baseTimeout * int i))) \<and>
      (int k = maxRetries \<or> \<not> retriable_failure (fetch k (baseTimeout * int k))))"

text \<open>The attempts and sleeps from attempt \<open>a\<close> up to the settling attempt \<open>k\<close>:
  attempt \<open>i\<close> runs under \<open>baseTimeout * i\<close> and is followed by a sleep of
  \<open>1000 * i\<close> when it is retried.\<close>

definition retry_trace :: "int \<Rightarrow> nat \<Rightarrow> nat \<Rightarrow> fetch_event list" where
  "retry_trace baseTimeout a k =
     concat (map (\<lambda>i. [Attempt i (baseTimeout * int i), Sleep (1000 * int i)]) [a..<k]) @
     [Attempt k (baseTimeout * int k)]"

definition timeout_error :: thrown where
  "timeout_error =
     ErrorObject \<lparr>err_code = Some ''UND_ERR_CONNECT_TIMEOUT'',
                  err_name = Some ''ConnectTimeoutError'',
                  err_message = Some ''Connect Timeout Error'', err_cause_code = None\<rparr>"

definition ok_response :: "string response" where
  "ok_response = \<lparr>resp_status = 200, resp_body = Some ''{}''\<rparr>"

definition not_found_response :: "string response" where
  "not_found_response = \<lparr>resp_status = 404, resp_body = None\<rparr>"

definition refused_error :: thrown where
  "refused_error =
     ErrorObject \<lparr>err_code = Some ''ECONNREFUSED'', err_name = Some ''Error'',
                  err_message = Some ''connect ECONNREFUSED 127.0.0.1:443'',
                  err_cause_code = None\<rparr>"

definition reset_error :: thrown where
  "reset_error =
     ErrorObject \<lparr>err_code = Some ''ECONNRESET'', err_name = Some ''Error'',
                  err_message = Some ''read ECONNRESET'', err_cause_code = None\<rparr>"

definition abort_error :: thrown where
  "abort_error =
     ErrorObject \<lparr>err_code = None, err_name = Some ''AbortError'',
                  err_message = Some ''This operation was aborted'', err_cause_code = None\<rparr>"

definition fetch_failed_error :: thrown where
  "fetch_failed_error =
     ErrorObject \<lparr>err_code = None, err_name = Some ''TypeError'',
                  err_message = Some ''fetch failed'', err_cause_code = None\<rparr>"

definition invalid_url_error :: thrown where
  "invalid_url_error =
     ErrorObject \<lparr>err_code = Some ''ERR_INVALID_URL'', err_name = Some ''TypeError'',
                  err_message = Some ''Invalid URL'', err_cause_code = None\<rparr>"

text \<open>A host that times out twice and answers the third attempt, and one that
  answers 404 at once; a host that refuses, resets, is aborted and fails before
  it answers the fifth attempt; a request that throws an error which is not
  retriable, then would answer; a host that always times out.\<close>

definition unstable_fetch :: "nat \<Rightarrow> int \<Rightarrow> string response fetch_outcome" where
  "unstable_fetch attempt timeout =
    (if attempt = 1 then Threw refused_error
     else if attempt = 2 then Threw reset_error
     else if attempt = 3 then Threw abort_error
     else if attempt = 4 then Threw fetch_failed_error
     else Responded ok_response)"

definition invalid_url_fetch :: "nat \<Rightarrow> int \<Rightarrow> string response fetch_outcome" where
  "invalid_url_fetch attempt timeout =
    (if attempt = 1 then Threw invalid_url_error else Responded ok_response)"

definition thrown_string_fetch :: "nat \<Rightarrow> int \<Rightarrow> string response fetch_outcome" where
  "thrown_string_fetch attempt timeout =
    (if attempt = 1 then Threw NonObject else Responded ok_response)"

definition dead_fetch :: "nat \<Rightarrow> int \<Rightarrow> string response fetch_outcome" where
  "dead_fetch attempt timeout = Threw timeout_error"

definition flaky_fetch :: "nat \<Rightarrow> int \<Rightarrow> string response fetch_outcome" where
  "flaky_fetch attempt timeout = (if attempt < 3 then Threw timeout_error else Responded ok_response)"

definition not_found_fetch :: "nat \<Rightarrow> int \<Rightarrow> string response fetch_outcome" where
  "not_found_fetch attempt timeout = Responded not_found_response"

text \<open>A registry of two pages; the first lists a superseded version.\<close>

definition sample_registry ::
  "nat \<Rightarrow> registry_query \<Rightarrow> MCPRegistryResponse response fetch_outcome" where
  "sample_registry n q =
    (if q_cursor q = None
     then Responded \<lparr>resp_status = 200, resp_body = Some
            \<lparr>servers = [sample_entry ''acme/tool'' ''A tool'' Active True,
                        sample_entry ''acme/old'' ''An old version'' Active False],
             metadata_count = 2, metadata_nextCursor = Some ''page2''\<rparr>\<rparr>
     else Responded \<lparr>resp_status = 200, resp_body = Some
            \<lparr>servers = [sample_entry ''beta/kit'' ''A kit'' Active True],
             metadata_count = 1, metadata_nextCursor = None\<rparr>\<rparr>)"


definition sample_downloads :: "npm_period \<Rightarrow> NpmDownloadsResponse" where
  "sample_downloads period =
     \<lparr>ndr_downloads = Some (case period of LastWeek \<Rightarrow> 1200 | LastMonth \<Rightarrow> 5000),
      ndr_start = ''2024-02-01'', ndr_end = ''2024-02-29'', ndr_package = ''acme-tool''\<rparr>"


definition npm_down :: npm_world where
  "npm_down =
     \<lparr>npm_registry = (\<lambda>pkg attempt timeout. Threw timeout_error),
      npm_api = (\<lambda>period pkg attempt timeout.
         Responded \<lparr>resp_status = 200, resp_body = Some (sample_downloads period)\<rparr>),
      npm_settle_order = (\<lambda>pkg. [1, 2, 0])\<rparr>"

text \<open>The world of a call made at time \<open>t\<close>: the clock is read one millisecond
  later for the freshness check and two milliseconds later for the stamp; the
  server has no repository and only an npm package, so the other five enrichers
  return null.\<close>

definition sample_date_parse :: "string \<Rightarrow> int option" where
  "sample_date_parse s =
     (if s = ''2023-11-14T22:13:20.002Z'' then Some 1700000000002 else None)"

definition sample_world :: "int \<Rightarrow> npm_world \<Rightarrow> enrich_world" where
  "sample_world t net =
     \<lparr>call_time = t, check_elapsed = 1, stamp_elapsed = 2, date_parse = sample_date_parse,
      run_enrichGitHub = (\<lambda>s. Inr None), npm_net = net,
      run_enrichPyPi = (\<lambda>s. Inr None), run_enrichNuGet = (\<lambda>s. Inr None),
      run_enrichDocker = (\<lambda>s. Inr None), run_enrichMcpb = (\<lambda>s. Inr None)\<rparr>"

text \<open>
  Vocabulary for the freshness window, in the words of the specification: a
  record is fresh within a maximum age at a call when its \<open>lastEnrichedAt\<close> is
  set, to the text of a time \<open>t\<close>, and the time at which the call checks is less
  than the maximum age after \<open>t\<close>.
\<close>

definition fresh_within :: "enrich_world \<Rightarrow> MCPServer \<Rightarrow> int \<Rightarrow> bool" where
  "fresh_within w srv age_limit =
     (lastEnrichedAt (enrichment srv) \<noteq> [] \<and>
      (\<exists>t. date_parse w (lastEnrichedAt (enrichment srv)) = Some t \<and>
           Date_now w - t < age_limit))"

definition no_options :: EnrichmentOptions where
  "no_options = \<lparr>delayMs = Absent, concurrency = Absent, skipIfFresh = Absent,
                  maxAge = Absent\<rparr>"




text \<open>The record of \<open>acme/tool\<close> as converted from the registry, not yet enriched.\<close>

definition new_server :: MCPServer where
  "new_server = convertRegistryEntry (sample_entry ''acme/tool'' ''A tool'' Active True)"

text \<open>The results of the calls of \<open>enrichServer\<close> that \<open>enrichServers\<close> makes for a
  queue whose first record is the \<open>k\<close>-th of the input.\<close>

definition call_results ::
  "(nat \<Rightarrow> enrich_world) \<Rightarrow> RequiredOptions \<Rightarrow> nat \<Rightarrow> MCPServer list
    \<Rightarrow> (MCPServer \<times> enrich_event list) list" where
  "call_results worlds opts k queue =
     map (\<lambda>(i, srv). enrichServer (worlds i) srv (as_options opts)) (enumerate k queue)"

text \<open>Vocabulary for the merge. A collection is keyed by name when its keys are
  distinct and every record sits under its own name. \<open>merged_record\<close> is the
  record that the merge loop builds for a fetched entry: the converted entry,
  with the enrichment of the prior record of that name when that one has a
  \<open>lastEnrichedAt\<close>. \<open>sync_options\<close> are the options the orchestrator passes to
  the coordinator.\<close>

definition keyed_by_name :: "server_map \<Rightarrow> bool" where
  "keyed_by_name m = (distinct (map fst m) \<and> (\<forall>(k, v) \<in> set m. name v = k))"

definition merged_record :: "server_map \<Rightarrow> MCPRegistryEntry \<Rightarrow> MCPServer" where
  "merged_record existingServers entry =
    (case map_of existingServers (rs_name (server entry)) of
       None \<Rightarrow> convertRegistryEntry entry
     | Some ex \<Rightarrow>
         if lastEnrichedAt (enrichment ex) \<noteq> []
         then (convertRegistryEntry entry)\<lparr>enrichment := enrichment ex\<rparr>
         else convertRegistryEntry entry)"

definition sync_options :: "bool \<Rightarrow> EnrichmentOptions" where
  "sync_options doFullSync =
     \<lparr>delayMs = Value 200, concurrency = Value 2, skipIfFresh = Value (\<not> doFullSync),
      maxAge = Value (24 * 60 * 60 * 1000)\<rparr>"

text \<open>A run of the orchestrator one minute after a first run that stored
  \<open>acme/tool\<close>, enriched: the registry answers with one page holding the given
  entries, the npm registry is unreachable, names are ordered by code point.\<close>

definition sample_sync_world :: "MCPRegistryEntry list \<Rightarrow> string sync_world" where
  "sample_sync_world entries =
     \<lparr>prior_snapshot = Some [sample_server ''acme/tool'' 1700000000002],
      prior_state = Some \<lparr>ss_lastSyncAt = ''2023-11-14T22:13:20.002Z'', ss_lastCursor = None,
                           ss_totalServers = 1,
                           ss_lastFullSyncAt = ''2023-11-14T22:13:20.002Z'', ss_version = 1\<rparr>,
      env_FULL_SYNC = None,
      sync_date_parse = sample_date_parse,
      sync_Date_now = 1700000060000,
      state_clock = (\<lambda>k. 1700000060000),
      registry = (\<lambda>n q. Responded \<lparr>resp_status = 200, resp_body = Some
                    \<lparr>servers = entries, metadata_count = int (length entries),
                     metadata_nextCursor = None\<rparr>\<rparr>),
      enrich_worlds = (\<lambda>i. sample_world 1700000060000 npm_down),
      collation_key = (\<lambda>s. s)\<rparr>"

text \<open>What a completed run fetched and wrote: the record of a name in the
  persisted snapshot and in the working collection, and whether the run was a
  full sync, the fetched entries, and the names in the persisted snapshot.\<close>

definition snapshot_record ::
  "(sync_error + sync_result) option \<Rightarrow> string \<Rightarrow> MCPServer option" where
  "snapshot_record r n =
     (case r of
        Some (Inr res) \<Rightarrow> find (\<lambda>s. name s = n) (res_snapshot res)
      | _ \<Rightarrow> None)"

definition working_record ::
  "(sync_error + sync_result) option \<Rightarrow> string \<Rightarrow> MCPServer option" where
  "working_record r n =
     (case r of
        Some (Inr res) \<Rightarrow> map_of (res_updatedServers res) n
      | _ \<Rightarrow> None)"

definition run_summary ::
  "(sync_error + sync_result) option \<Rightarrow> (bool \<times> MCPRegistryEntry list \<times> string list) option" where
  "run_summary r =
     (case r of
        Some (Inr res) \<Rightarrow> Some (res_doFullSync res, res_entries res, map name (res_snapshot res))
      | _ \<Rightarrow> None)"

section \<open>Properties of the derived fields\<close>

lemma split_on_nonempty: "split_on c s \<noteq> []"
  by (induction s) auto

lemma hd_split_on: "hd (split_on c s) = takeWhile (\<lambda>x. x \<noteq> c) s"
  by (induction s) auto

lemma tl_split_on:
  "tl (split_on c s) =
     (if c \<in> set s then split_on c (tl (dropWhile (\<lambda>x. x \<noteq> c) s)) else [])"
  by (induction s) (auto simp: split_on_nonempty)

lemma length_split_on: "(length (split_on c s) > 1) = (c \<in> set s)"
proof -
  have "length (split_on c s) = Suc (length (tl (split_on c s)))"
    using split_on_nonempty [of c s] by (cases "split_on c s") auto
  then show ?thesis
    using split_on_nonempty [of c "tl (dropWhile (\<lambda>x. x \<noteq> c) s)"]
    by (auto simp: tl_split_on)
qed

lemma length_split_on_Suc: "(Suc 0 < length (split_on c s)) = (c \<in> set s)"
  using length_split_on [of c s] by simp

lemma split_on_nth0: "split_on c s ! 0 = takeWhile (\<lambda>x. x \<noteq> c) s"
  using split_on_nonempty [of c s] hd_split_on [of c s]
  by (cases "split_on c s") auto

lemma split_on_nth1:
  assumes h: "c \<in> set s"
  shows "split_on c s ! 1 = takeWhile (\<lambda>x. x \<noteq> c) (tl (dropWhile (\<lambda>x. x \<noteq> c) s))"
proof -
  have "split_on c s ! 1 = hd (tl (split_on c s))"
    using split_on_nonempty [of c s] h length_split_on [of c s]
    by (cases "split_on c s"; cases "tl (split_on c s)") auto
  then show ?thesis using h by (simp add: tl_split_on hd_split_on)
qed

lemma split_on_nth_Suc0:
  "c \<in> set s \<Longrightarrow>
   split_on c s ! Suc 0 = takeWhile (\<lambda>x. x \<noteq> c) (tl (dropWhile (\<lambda>x. x \<noteq> c) s))"
  using split_on_nth1 [of c s] by simp

lemma set_add_set: "set (set_add s x) = insert x (set s)"
  by (auto simp: set_add_def)

lemma set_add_distinct: "distinct s \<Longrightarrow> distinct (set_add s x)"
  by (auto simp: set_add_def)

lemma foldl_set_add_set: "set (foldl set_add acc xs) = set acc \<union> set xs"
  by (induction xs arbitrary: acc) (auto simp: set_add_set)

lemma foldl_set_add_distinct: "distinct acc \<Longrightarrow> distinct (foldl set_add acc xs)"
  by (induction xs arbitrary: acc) (auto simp: set_add_distinct)

lemma new_Set_set: "set (new_Set xs) = set xs"
  by (simp add: new_Set_def foldl_set_add_set)

lemma new_Set_distinct: "distinct (new_Set xs)"
  by (simp add: new_Set_def foldl_set_add_distinct)

lemma computed_organization:
  "organization (computed (computeServerFields s)) =
     (if CHR ''/'' \<in> set (name s) then before_first_slash (name s) else [])"
  by (simp add: computeServerFields_def Let_def length_split_on_Suc split_on_nth0
        before_first_slash_def)

lemma computed_serverName:
  "serverName (computed (computeServerFields s)) =
     (if CHR ''/'' \<in> set (name s) then before_first_slash (after_first_slash (name s))
      else name s)"
  by (auto simp add: computeServerFields_def Let_def length_split_on_Suc split_on_nth0
        split_on_nth_Suc0 before_first_slash_def after_first_slash_def)

lemma computed_packageTypes:
  "packageTypes (computed (computeServerFields s)) = new_Set (map registryType (packages s))"
  by (simp add: computeServerFields_def Let_def)

lemma computed_hasRemote:
  "hasRemote (computed (computeServerFields s)) = (length (remotes s) > 0)"
  by (simp add: computeServerFields_def Let_def)

lemma significand_shift_small: "m < 2 ^ 53 \<Longrightarrow> significand_shift m = 0"
  by (subst significand_shift.simps) simp

lemma to_double_small: "\<bar>n\<bar> < 2 ^ 53 \<Longrightarrow> to_double n = n"
proof -
  assume "\<bar>n\<bar> < 2 ^ 53"
  then have "nat \<bar>n\<bar> < 2 ^ 53" by simp
  then have "significand_shift (nat \<bar>n\<bar>) = 0" by (rule significand_shift_small)
  then have "to_double n = sgn n * \<bar>n\<bar>" by (simp add: to_double_def Let_def)
  then show ?thesis by (simp add: mult_sgn_abs)
qed

lemma significand_shift_53: "significand_shift (2 ^ 53) = 1"
  by (subst significand_shift.simps) (simp add: significand_shift_small)

lemma to_double_53: "\<bar>n\<bar> = 2 ^ 53 \<Longrightarrow> to_double n = n"
proof -
  assume a: "\<bar>n\<bar> = 2 ^ 53"
  then have m: "nat \<bar>n\<bar> = 2 ^ 53" by simp
  have "to_double n = sgn n * 2 ^ 53"
    using significand_shift_53 by (simp add: to_double_def Let_def m)
  also have "\<dots> = sgn n * \<bar>n\<bar>" using a by simp
  finally show ?thesis by (simp add: mult_sgn_abs)
qed

lemma to_double_exact: "\<bar>n\<bar> \<le> 2 ^ 53 \<Longrightarrow> to_double n = n"
  using to_double_small [of n] to_double_53 [of n] by linarith

lemma add_figure_exact: "\<bar>t + x\<bar> \<le> 2 ^ 53 \<Longrightarrow> add_figure t x = t + x"
  by (simp add: add_figure_def truthy_num_def js_add_def to_double_exact)

lemma computed_totalDownloads_steps:
  "totalDownloads (computed (computeServerFields s)) =
    (let f = download_figures (enrichment s)
     in add_figure (add_figure (add_figure (add_figure (add_figure 0
          (f ! 0)) (f ! 1)) (f ! 2)) (f ! 3)) (f ! 4))"
  by (simp add: computeServerFields_def Let_def download_figures_def add_figure_def
        truthy_num_def split: option.splits)

lemma add_figures_exact:
  fixes a b c d e :: int
  assumes "\<bar>a\<bar> + \<bar>b\<bar> + \<bar>c\<bar> + \<bar>d\<bar> + \<bar>e\<bar> \<le> 2 ^ 53"
  shows "add_figure (add_figure (add_figure (add_figure (add_figure 0 a) b) c) d) e =
           a + b + c + d + e"
proof -
  have 1: "add_figure 0 a = a"
    using add_figure_exact [of 0 a] assms by simp
  have 2: "add_figure a b = a + b"
    using add_figure_exact [of a b] assms by simp
  have 3: "add_figure (a + b) c = a + b + c"
    using add_figure_exact [of "a + b" c] assms by simp
  have 4: "add_figure (a + b + c) d = a + b + c + d"
    using add_figure_exact [of "a + b + c" d] assms by simp
  have 5: "add_figure (a + b + c + d) e = a + b + c + d + e"
    using add_figure_exact [of "a + b + c + d" e] assms by simp
  show ?thesis by (simp only: 1 2 3 4 5)
qed

lemma computed_totalDownloads:
  assumes "exact_range (enrichment s)"
  shows "totalDownloads (computed (computeServerFields s)) =
           sum_list (download_figures (enrichment s))"
proof -
  obtain a b c d e where f: "download_figures (enrichment s) = [a, b, c, d, e]"
    by (simp add: download_figures_def)
  have "\<bar>a\<bar> + \<bar>b\<bar> + \<bar>c\<bar> + \<bar>d\<bar> + \<bar>e\<bar> \<le> 2 ^ 53"
    using assms by (simp add: exact_range_def f)
  then show ?thesis
    using add_figures_exact [of a b c d e]
    by (simp add: computed_totalDownloads_steps f Let_def)
qed

lemma computeServerFields_frame:
  "computeServerFields s = s\<lparr>computed := computed (computeServerFields s)\<rparr>"
  by (simp add: computeServerFields_def Let_def)

lemma computeServerFields_name: "name (computeServerFields s) = name s"
  by (simp add: computeServerFields_def Let_def)

lemma computeServerFields_enrichment: "enrichment (computeServerFields s) = enrichment s"
  by (simp add: computeServerFields_def Let_def)

lemma figures_length: "length (download_figures e) = 5"
  by (simp add: download_figures_def)

lemma sum_list_update_int:
  fixes xs :: "int list"
  shows "i < length xs \<Longrightarrow> sum_list (xs[i := v]) = sum_list xs + v - xs ! i"
  by (induction xs arbitrary: i) (auto split: nat.splits)

lemma sum_list_delta:
  fixes xs ys :: "int list"
  assumes "length xs = length ys" "i < length xs"
    "\<forall>j < length xs. j \<noteq> i \<longrightarrow> ys ! j = xs ! j"
  shows "sum_list ys = sum_list xs + (ys ! i - xs ! i)"
proof -
  have "ys = xs[i := ys ! i]"
    using assms by (intro nth_equalityI) (auto simp: nth_list_update)
  then have "sum_list ys = sum_list (xs[i := ys ! i])" by simp
  also have "\<dots> = sum_list xs + ys ! i - xs ! i"
    using assms(2) by (rule sum_list_update_int)
  finally show ?thesis by simp
qed

lemma sample_server_fields:
  "name (sample_server n t) = n"
  "packages (sample_server n t) =
     [\<lparr>registryType = Npm, pkg_identifier = ''acme-tool'', pkg_transport = None,
       pkg_environmentVariables = None, pkg_fileSha256 = None\<rparr>]"
  "remotes (sample_server n t) = []"
  "status (sample_server n t) = Active"
  "enrichment (sample_server n t) =
     \<lparr>lastEnrichedAt = toISOString t, github = None, npm = Some sample_npm,
      pypi = None, nuget = None, docker = None, mcpb = None\<rparr>"
  by (simp_all add: sample_server_def convertRegistryEntry_def sample_entry_def Let_def)

text \<open>
  C7, as the code has it. After \<open>computeServerFields\<close>, \<open>packageTypes\<close> lists
  every registry type of the record's packages exactly once and \<open>hasRemote\<close> says
  whether there is a remote. \<open>totalDownloads\<close> is the sum of the per-source
  download figures, absent sources counted as zero, when the figures are in the
  exact range of JavaScript numbers (their magnitudes add up to at most
  \<open>2 ^ 53\<close>); then, between two such records that differ in the figure of one
  source only, the totals differ by exactly the difference of that figure.
\<close>

theorem computeServerFields_derived:
  "distinct (packageTypes (computed (computeServerFields s))) \<and>
   set (packageTypes (computed (computeServerFields s))) = registryType ` set (packages s) \<and>
   hasRemote (computed (computeServerFields s)) = (length (remotes s) > 0) \<and>
   (exact_range (enrichment s) \<longrightarrow>
    totalDownloads (computed (computeServerFields s)) =
      sum_list (download_figures (enrichment s))) \<and>
   (exact_range (enrichment s) \<and> exact_range (enrichment s') \<and>
    i < 5 \<and> (\<forall>j<5. j \<noteq> i \<longrightarrow>
        download_figures (enrichment s') ! j = download_figures (enrichment s) ! j) \<longrightarrow>
    totalDownloads (computed (computeServerFields s')) =
      totalDownloads (computed (computeServerFields s)) +
      (download_figures (enrichment s') ! i - download_figures (enrichment s) ! i))"
  using sum_list_delta [of "download_figures (enrichment s)" "download_figures (enrichment s')" i]
  by (simp add: computed_packageTypes new_Set_set new_Set_distinct computed_hasRemote
        computed_totalDownloads figures_length)

text \<open>The scenario of the specification: one npm package with 5000 monthly
  downloads; raising the npm figure to 5200 raises the total by 200.\<close>

theorem computeServerFields_derived_witness:
  "packageTypes (computed (computeServerFields (sample_server ''acme/tool'' 0))) = [Npm] \<and>
   hasRemote (computed (computeServerFields (sample_server ''acme/tool'' 0))) = False \<and>
   exact_range (enrichment (sample_server ''acme/tool'' 0)) \<and>
   totalDownloads (computed (computeServerFields (sample_server ''acme/tool'' 0))) = 5000 \<and>
   totalDownloads (computed (computeServerFields
      ((sample_server ''acme/tool'' 0)
         \<lparr>enrichment := (enrichment (sample_server ''acme/tool'' 0))
            \<lparr>npm := Some (sample_npm\<lparr>npm_monthlyDownloads := 5200\<rparr>)\<rparr>\<rparr>))) = 5000 + 200"
proof -
  let ?s = "sample_server ''acme/tool'' 0"
  let ?s' = "?s\<lparr>enrichment := (enrichment ?s)
               \<lparr>npm := Some (sample_npm\<lparr>npm_monthlyDownloads := 5200\<rparr>)\<rparr>\<rparr>"
  have figs: "download_figures (enrichment ?s) = [5000, 0, 0, 0, 0]"
    "download_figures (enrichment ?s') = [5200, 0, 0, 0, 0]"
    by (simp_all add: download_figures_def sample_server_fields sample_npm_def)
  have ex: "exact_range (enrichment ?s)" "exact_range (enrichment ?s')"
    unfolding exact_range_def figs by simp_all
  have others: "\<forall>j<5. j \<noteq> (0::nat) \<longrightarrow>
      download_figures (enrichment ?s') ! j = download_figures (enrichment ?s) ! j"
    unfolding figs by (auto simp: nth_Cons split: nat.splits)
  have pk: "packageTypes (computed (computeServerFields ?s)) = [Npm]"
    by (simp add: computed_packageTypes sample_server_fields new_Set_def set_add_def)
  have hr: "hasRemote (computed (computeServerFields ?s)) = False"
    using computeServerFields_derived [of ?s ?s' 0] by (simp add: sample_server_fields(3))
  have t: "totalDownloads (computed (computeServerFields ?s)) =
      sum_list (download_figures (enrichment ?s))"
    using computeServerFields_derived [of ?s ?s' 0] ex(1) by blast
  have dl: "totalDownloads (computed (computeServerFields ?s')) =
      totalDownloads (computed (computeServerFields ?s)) +
      (download_figures (enrichment ?s') ! 0 - download_figures (enrichment ?s) ! 0)"
    using computeServerFields_derived [of ?s ?s' 0] others ex
      zero_less_numeral [of "num.Bit1 (num.Bit0 num.One)", where ?'a = nat]
    by blast
  have t5000: "totalDownloads (computed (computeServerFields ?s)) = 5000"
    unfolding t figs by simp
  have t5200: "totalDownloads (computed (computeServerFields ?s')) = 5000 + 200"
    unfolding dl t figs by simp
  show ?thesis
    using pk hr ex(1) t5000 t5200 by blast
qed

text \<open>C7 as written fails on large figures, because \<open>totalDownloads\<close> is a
  JavaScript number: with 9007199254740992 (\<open>2 ^ 53\<close>) monthly npm downloads, one
  PyPI download more leaves the total where it was, one below the sum of the
  figures.\<close>

theorem computeServerFields_large_total_counterexample:
  "download_figures (enrichment popular_server) = [9007199254740992, 0, 0, 0, 0] \<and>
   download_figures (enrichment popular_server_pypi) = [9007199254740992, 1, 0, 0, 0] \<and>
   totalDownloads (computed (computeServerFields popular_server)) = 9007199254740992 \<and>
   totalDownloads (computed (computeServerFields popular_server_pypi)) = 9007199254740992 \<and>
   totalDownloads (computed (computeServerFields popular_server_pypi)) \<noteq>
     sum_list (download_figures (enrichment popular_server_pypi))"
proof -
  have figs: "download_figures (enrichment popular_server) = [9007199254740992, 0, 0, 0, 0]"
    "download_figures (enrichment popular_server_pypi) = [9007199254740992, 1, 0, 0, 0]"
    by (simp_all add: download_figures_def popular_server_def popular_server_pypi_def
          sample_server_fields sample_npm_def sample_pypi_def)
  have r0: "js_add 0 9007199254740992 = 9007199254740992"
    using to_double_exact [of 9007199254740992] by (simp add: js_add_def)
  have s1: "significand_shift 9007199254740993 = 1"
    by (subst significand_shift.simps) (simp add: significand_shift_small)
  have r1: "js_add 9007199254740992 1 = 9007199254740992"
    by (simp add: js_add_def to_double_def Let_def s1)
  have t0: "totalDownloads (computed (computeServerFields popular_server)) = 9007199254740992"
    by (simp add: computed_totalDownloads_steps figs Let_def add_figure_def truthy_num_def r0)
  have t1: "totalDownloads (computed (computeServerFields popular_server_pypi)) =
      9007199254740992"
    by (simp add: computed_totalDownloads_steps figs Let_def add_figure_def truthy_num_def
          r0 r1)
  show ?thesis
    unfolding t0 t1 figs by simp
qed

text \<open>
  C8, as the code has it. \<open>organization\<close> is the text of the name before its first
  \<open>/\<close>, empty when there is none. \<open>serverName\<close> is the whole name when it has no
  \<open>/\<close>; otherwise it is the text after the first \<open>/\<close> up to the next \<open>/\<close>, which
  is the entire remainder only when the remainder has no further \<open>/\<close>.
\<close>

theorem computeServerFields_name_split:
  "organization (computed (computeServerFields s)) =
     (if CHR ''/'' \<in> set (name s) then before_first_slash (name s) else []) \<and>
   serverName (computed (computeServerFields s)) =
     (if CHR ''/'' \<in> set (name s) then before_first_slash (after_first_slash (name s))
      else name s) \<and>
   (CHR ''/'' \<notin> set (after_first_slash (name s)) \<longrightarrow>
      before_first_slash (after_first_slash (name s)) = after_first_slash (name s))"
  by (auto simp add: computed_organization computed_serverName before_first_slash_def)

theorem computeServerFields_name_split_witness:
  "organization (computed (computeServerFields (sample_server ''acme/tool'' 0))) = ''acme'' \<and>
   serverName (computed (computeServerFields (sample_server ''acme/tool'' 0))) = ''tool'' \<and>
   CHR ''/'' \<notin> set (after_first_slash (name (sample_server ''acme/tool'' 0)))"
  using computeServerFields_name_split [of "sample_server ''acme/tool'' 0"]
  by (simp add: sample_server_fields before_first_slash_def after_first_slash_def)

text \<open>The claim as written fails on a name with two separators: the remainder of
  \<open>a/b/c\<close> after its first \<open>/\<close> is \<open>b/c\<close>, the computed \<open>serverName\<close> is \<open>b\<close>.\<close>

theorem computeServerFields_serverName_counterexample:
  "after_first_slash (name (sample_server ''a/b/c'' 0)) = ''b/c'' \<and>
   serverName (computed (computeServerFields (sample_server ''a/b/c'' 0))) = ''b'' \<and>
   serverName (computed (computeServerFields (sample_server ''a/b/c'' 0)))
     \<noteq> after_first_slash (name (sample_server ''a/b/c'' 0))"
  by (simp add: computed_serverName sample_server_fields before_first_slash_def
        after_first_slash_def)

text \<open>
  C10. \<open>computeServerFields\<close> changes the \<open>_computed\<close> field only: every registry
  field and the whole enrichment object of the result are those of the input.
\<close>

theorem computeServerFields_changes_computed_only:
  "computeServerFields s = s\<lparr>computed := computed (computeServerFields s)\<rparr> \<and>
   name (computeServerFields s) = name s \<and>
   description (computeServerFields s) = description s \<and>
   version (computeServerFields s) = version s \<and>
   repository (computeServerFields s) = repository s \<and>
   packages (computeServerFields s) = packages s \<and>
   remotes (computeServerFields s) = remotes s \<and>
   status (computeServerFields s) = status s \<and>
   publishedAt (computeServerFields s) = publishedAt s \<and>
   updatedAt (computeServerFields s) = updatedAt s \<and>
   isLatest (computeServerFields s) = isLatest s \<and>
   enrichment (computeServerFields s) = enrichment s"
  by (simp add: computeServerFields_def Let_def)

theorem computeServerFields_changes_computed_only_witness:
  "name (computeServerFields (sample_server ''acme/tool'' 0)) = ''acme/tool'' \<and>
   status (computeServerFields (sample_server ''acme/tool'' 0)) = Active \<and>
   npm (enrichment (computeServerFields (sample_server ''acme/tool'' 0))) = Some sample_npm"
  using computeServerFields_changes_computed_only [of "sample_server ''acme/tool'' 0"]
  by (simp add: sample_server_fields)

section \<open>Properties of the resilient fetch\<close>

lemma starts_with_prefix: "starts_with s p = (\<exists>after. s = p @ after)"
  by (induction s p rule: starts_with.induct) auto

lemma str_includes_contains: "str_includes s p = contains_text s p"
proof (induction s)
  case Nil
  then show ?case by (simp add: contains_text_def)
next
  case (Cons x xs)
  have "contains_text (x # xs) p = (starts_with (x # xs) p \<or> contains_text xs p)"
  proof
    assume "contains_text (x # xs) p"
    then obtain before after where d: "x # xs = before @ p @ after"
      unfolding contains_text_def by blast
    show "starts_with (x # xs) p \<or> contains_text xs p"
    proof (cases before)
      case Nil
      then show ?thesis using d by (auto simp: starts_with_prefix)
    next
      case (Cons y ys)
      then have "xs = ys @ p @ after" using d by simp
      then show ?thesis unfolding contains_text_def by blast
    qed
  next
    assume "starts_with (x # xs) p \<or> contains_text xs p"
    then show "contains_text (x # xs) p"
    proof
      assume "starts_with (x # xs) p"
      then obtain after where "x # xs = [] @ p @ after"
        by (auto simp: starts_with_prefix)
      then show ?thesis unfolding contains_text_def by blast
    next
      assume "contains_text xs p"
      then obtain before after where "xs = before @ p @ after"
        unfolding contains_text_def by blast
      then have "x # xs = (x # before) @ p @ after" by simp
      then show ?thesis unfolding contains_text_def by blast
    qed
  qed
  then show ?case using Cons.IH by simp
qed

lemma retriable_kinds:
  "retriable e =
    (of_kind e Timeout \<or> of_kind e ConnectionRefused \<or> of_kind e ConnectionReset \<or>
     of_kind e AbortByTimeout \<or> of_kind e GenericFetchFailure)"
proof
  assume "retriable e"
  then obtain k where "of_kind e k" unfolding retriable_def by blast
  then show "of_kind e Timeout \<or> of_kind e ConnectionRefused \<or> of_kind e ConnectionReset \<or>
     of_kind e AbortByTimeout \<or> of_kind e GenericFetchFailure"
    by (cases k) simp_all
next
  assume "of_kind e Timeout \<or> of_kind e ConnectionRefused \<or> of_kind e ConnectionReset \<or>
     of_kind e AbortByTimeout \<or> of_kind e GenericFetchFailure"
  then show "retriable e" unfolding retriable_def by blast
qed

lemma isRetriableError_retriable: "isRetriableError e = retriable e"
proof (cases e)
  case NonObject
  then show ?thesis by (simp add: isRetriableError_def retriable_kinds of_kind_def)
next
  case (ErrorObject err)
  show ?thesis
  proof (cases "err_message err")
    case None
    then show ?thesis
      using ErrorObject by (auto simp: isRetriableError_def retriable_kinds of_kind_def)
  next
    case (Some m)
    then show ?thesis
      using ErrorObject
      by (auto simp: isRetriableError_def retriable_kinds of_kind_def str_includes_contains)
  qed
qed

lemma loop_settles:
  assumes "a \<le> k" "int k \<le> maxRetries"
    "\<forall>i \<in> {a..<k}. retriable_failure (fetch i (baseTimeout * int i))"
    "int k = maxRetries \<or> \<not> retriable_failure (fetch k (baseTimeout * int k))"
  shows "fetchWithRetry_loop fetch maxRetries baseTimeout a lastError =
           (outcome_result (fetch k (baseTimeout * int k)), retry_trace baseTimeout a k)"
  using assms
proof (induction "k - a" arbitrary: a lastError)
  case 0
  then have ak: "a = k" by simp
  show ?case
    using "0.prems"(2,4) unfolding ak
    by (subst fetchWithRetry_loop.simps)
       (auto simp: Let_def retriable_failure_def outcome_result_def retry_trace_def
          isRetriableError_retriable split: fetch_outcome.splits)
next
  case (Suc n)
  then have lt: "a < k" by simp
  then have rf: "retriable_failure (fetch a (baseTimeout * int a))"
    using Suc.prems(3) by simp
  have rec: "fetchWithRetry_loop fetch maxRetries baseTimeout (Suc a) le =
      (outcome_result (fetch k (baseTimeout * int k)), retry_trace baseTimeout (Suc a) k)" for le
    using Suc.hyps(1) [of "Suc a" le] Suc.hyps(2) Suc.prems lt by auto
  have up: "[a..<k] = a # [Suc a..<k]"
    using lt by (simp add: upt_conv_Cons)
  show ?case
    using rf lt Suc.prems(2)
    by (subst fetchWithRetry_loop.simps)
       (auto simp: Let_def rec retriable_failure_def retry_trace_def up
          isRetriableError_retriable split: fetch_outcome.splits)
qed

lemma settles_exists:
  assumes "1 \<le> maxRetries"
  shows "\<exists>k. settles_at fetch maxRetries baseTimeout k"
proof -
  let ?stop = "\<lambda>k. 1 \<le> k \<and>
    (int k = maxRetries \<or> \<not> retriable_failure (fetch k (baseTimeout * int k)))"
  have ex: "?stop (nat maxRetries)" using assms by simp
  define k where "k = (LEAST k. ?stop k)"
  have sk: "?stop k" unfolding k_def using ex by (rule LeastI)
  have le: "k \<le> nat maxRetries" unfolding k_def using ex by (rule Least_le)
  have before: "\<not> ?stop i" if "i < k" for i
    using that not_less_Least unfolding k_def by blast
  have "\<forall>i \<in> {1..<k}. retriable_failure (fetch i (baseTimeout * int i))"
    using before by auto
  then show ?thesis
    using sk le assms unfolding settles_at_def by (intro exI [of _ k]) auto
qed

lemma timeout_error_retriable: "isRetriableError timeout_error"
  by (simp add: isRetriableError_def timeout_error_def)

lemma sample_errors_retriable:
  "retriable timeout_error" "retriable refused_error" "retriable reset_error"
  "retriable abort_error" "retriable fetch_failed_error"
  "\<not> retriable invalid_url_error" "\<not> retriable NonObject"
  unfolding isRetriableError_retriable [symmetric]
  by (simp_all add: isRetriableError_def timeout_error_def refused_error_def reset_error_def
        abort_error_def fetch_failed_error_def invalid_url_error_def)

text \<open>
  C1. \<open>isRetriableError\<close> accepts exactly the retriable errors: the thrown
  objects that report a timeout, a refused or a reset connection, an abort by
  the timeout of the attempt, or a generic fetch failure. Whenever attempts 1
  to \<open>k - 1\<close> throw retriable errors and attempt \<open>k\<close>, within \<open>maxRetries\<close>,
  either receives a response, throws an error that is not retriable, or is the
  last attempt allowed, \<open>fetchWithRetry\<close> ends at attempt \<open>k\<close>: it returns the
  response received there, or throws the error thrown there, and never anything
  else. Attempt \<open>i\<close> ran under the timeout \<open>baseTimeout * i\<close>, each retried
  attempt \<open>i\<close> was followed by a sleep of \<open>1000 * i\<close> ms, and nothing was
  attempted after \<open>k\<close>. With one attempt or more allowed, every sequence of
  outcomes has such a \<open>k\<close>.
\<close>

theorem fetchWithRetry_policy:
  "isRetriableError e =
     (of_kind e Timeout \<or> of_kind e ConnectionRefused \<or> of_kind e ConnectionReset \<or>
      of_kind e AbortByTimeout \<or> of_kind e GenericFetchFailure) \<and>
   (settles_at fetch maxRetries baseTimeout k \<longrightarrow>
      fetchWithRetry fetch maxRetries baseTimeout =
        (outcome_result (fetch k (baseTimeout * int k)), retry_trace baseTimeout 1 k)) \<and>
   (1 \<le> maxRetries \<longrightarrow> (\<exists>k. settles_at fetch maxRetries baseTimeout k))"
proof -
  have "settles_at fetch maxRetries baseTimeout k \<longrightarrow>
      fetchWithRetry fetch maxRetries baseTimeout =
        (outcome_result (fetch k (baseTimeout * int k)), retry_trace baseTimeout 1 k)"
    using loop_settles [of 1 k maxRetries fetch baseTimeout None]
    by (auto simp: settles_at_def fetchWithRetry_def)
  then show ?thesis
    using settles_exists [of maxRetries fetch baseTimeout]
      isRetriableError_retriable [of e] retriable_kinds [of e]
    by blast
qed

text \<open>Two timeouts, then a response: it is returned after sleeps of 1000 and
  2000 ms. A 404 at the first attempt: it is returned with no retry. A refused
  connection, a reset one, an abort and a fetch failure are each retried, the
  sleeps growing by 1000 ms. An error that is not retriable, and a thrown
  value that is not an object, are thrown again at once, although the second
  attempt would be answered. Three timeouts with three attempts allowed: the
  last timeout is thrown.\<close>

theorem fetchWithRetry_policy_witness:
  "fetchWithRetry flaky_fetch 3 10000 =
     (Inr ok_response,
      [Attempt 1 10000, Sleep 1000, Attempt 2 20000, Sleep 2000, Attempt 3 30000]) \<and>
   fetchWithRetry not_found_fetch 3 10000 = (Inr not_found_response, [Attempt 1 10000]) \<and>
   fetchWithRetry unstable_fetch 5 10000 =
     (Inr ok_response,
      [Attempt 1 10000, Sleep 1000, Attempt 2 20000, Sleep 2000, Attempt 3 30000, Sleep 3000,
       Attempt 4 40000, Sleep 4000, Attempt 5 50000]) \<and>
   fetchWithRetry invalid_url_fetch 3 10000 = (Inl invalid_url_error, [Attempt 1 10000]) \<and>
   fetchWithRetry thrown_string_fetch 3 10000 = (Inl NonObject, [Attempt 1 10000]) \<and>
   fetchWithRetry dead_fetch 3 10000 =
     (Inl timeout_error,
      [Attempt 1 10000, Sleep 1000, Attempt 2 20000, Sleep 2000, Attempt 3 30000]) \<and>
   isRetriableError refused_error \<and> isRetriableError abort_error \<and>
   isRetriableError invalid_url_error = False"
proof -
  have s3: "settles_at flaky_fetch 3 10000 3"
    by (auto simp: settles_at_def flaky_fetch_def retriable_failure_def sample_errors_retriable)
  have s1: "settles_at not_found_fetch 3 10000 1"
    by (simp add: settles_at_def not_found_fetch_def retriable_failure_def)
  have s5: "settles_at unstable_fetch 5 10000 5"
    by (auto simp: settles_at_def unstable_fetch_def retriable_failure_def
          sample_errors_retriable)
  have i1: "settles_at invalid_url_fetch 3 10000 1"
    by (simp add: settles_at_def invalid_url_fetch_def retriable_failure_def
          sample_errors_retriable)
  have n1: "settles_at thrown_string_fetch 3 10000 1"
    by (simp add: settles_at_def thrown_string_fetch_def retriable_failure_def
          sample_errors_retriable)
  have d3: "settles_at dead_fetch 3 10000 3"
    by (simp add: settles_at_def dead_fetch_def retriable_failure_def sample_errors_retriable)
  have up: "[Suc 0..<3] = [Suc 0, 2]" "[Suc 0..<5] = [Suc 0, 2, 3, 4]"
    by (simp_all add: upt_rec)
  have k1: "isRetriableError refused_error"
    using fetchWithRetry_policy [of refused_error flaky_fetch 3 10000 3]
    by (simp add: of_kind_def refused_error_def)
  have k2: "isRetriableError abort_error"
    using fetchWithRetry_policy [of abort_error flaky_fetch 3 10000 3]
    by (simp add: of_kind_def abort_error_def)
  have k3: "isRetriableError invalid_url_error = False"
    using fetchWithRetry_policy [of invalid_url_error flaky_fetch 3 10000 3]
      sample_errors_retriable(6)
    by (simp add: retriable_kinds)
  have r: "fetchWithRetry flaky_fetch 3 10000 =
     (Inr ok_response,
      [Attempt 1 10000, Sleep 1000, Attempt 2 20000, Sleep 2000, Attempt 3 30000])"
    "fetchWithRetry not_found_fetch 3 10000 = (Inr not_found_response, [Attempt 1 10000])"
    "fetchWithRetry unstable_fetch 5 10000 =
     (Inr ok_response,
      [Attempt 1 10000, Sleep 1000, Attempt 2 20000, Sleep 2000, Attempt 3 30000, Sleep 3000,
       Attempt 4 40000, Sleep 4000, Attempt 5 50000])"
    "fetchWithRetry invalid_url_fetch 3 10000 = (Inl invalid_url_error, [Attempt 1 10000])"
    "fetchWithRetry thrown_string_fetch 3 10000 = (Inl NonObject, [Attempt 1 10000])"
    "fetchWithRetry dead_fetch 3 10000 =
     (Inl timeout_error,
      [Attempt 1 10000, Sleep 1000, Attempt 2 20000, Sleep 2000, Attempt 3 30000])"
    using fetchWithRetry_policy [of timeout_error flaky_fetch 3 10000 3]
      fetchWithRetry_policy [of timeout_error not_found_fetch 3 10000 1]
      fetchWithRetry_policy [of timeout_error unstable_fetch 5 10000 5]
      fetchWithRetry_policy [of timeout_error invalid_url_fetch 3 10000 1]
      fetchWithRetry_policy [of timeout_error thrown_string_fetch 3 10000 1]
      fetchWithRetry_policy [of timeout_error dead_fetch 3 10000 3]
      s3 s1 s5 i1 n1 d3
    by (simp_all add: outcome_result_def retry_trace_def flaky_fetch_def not_found_fetch_def
          unstable_fetch_def invalid_url_fetch_def thrown_string_fetch_def dead_fetch_def up)
  show ?thesis
    using r k1 k2 k3 by simp
qed

section \<open>Properties of the registry client\<close>

lemma fetchAllServers_loop_latest:
  "fetchAllServers_loop http options cursor pageCount acc = Some res \<Longrightarrow>
   (\<forall>e \<in> set acc. meta_isLatest (meta e)) \<longrightarrow>
   (\<forall>es. res = Inr es \<longrightarrow> (\<forall>e \<in> set es. meta_isLatest (meta e)))"
proof (induction rule: fetchAllServers_loop.raw_induct [rotated 1, consumes 1, case_names step])
  case (step loop http options cursor pageCount acc res)
  note IH = step(1) and body = step(2)
  show ?case
  proof (cases "fetchServers http (pageCount + 1) (options\<lparr>opt_cursor := cursor\<rparr>)")
    case (Inl e)
    then have "res = Inl e" using body by simp
    then show ?thesis by simp
  next
    case (Inr response)
    let ?acc' = "acc @ filter (\<lambda>entry. meta_isLatest (meta entry)) (servers response)"
    have acc': "(\<forall>e \<in> set acc. meta_isLatest (meta e)) \<Longrightarrow>
        (\<forall>e \<in> set ?acc'. meta_isLatest (meta e))"
      by simp blast
    show ?thesis
    proof (cases "truthy_str (metadata_nextCursor response)")
      case True
      then have "loop http options (metadata_nextCursor response) (pageCount + 1) ?acc' = Some res"
        using body Inr by (simp add: Let_def)
      from IH [OF this] acc' show ?thesis by blast
    next
      case False
      then have "res = Inr ?acc'"
        using body Inr by (simp add: Let_def)
      then show ?thesis using acc' by blast
    qed
  qed
qed

lemma fetchAllServers_latest:
  "fetchAllServers http options = Some (Inr es) \<Longrightarrow> \<forall>e \<in> set es. meta_isLatest (meta e)"
  using fetchAllServers_loop_latest [of http options None 0 "[]" "Inr es"]
  by (simp add: fetchAllServers_def)

lemma fetchAllServers_sample:
  "fetchAllServers sample_registry opts =
     Some (Inr [sample_entry ''acme/tool'' ''A tool'' Active True,
                sample_entry ''beta/kit'' ''A kit'' Active True])"
  by (simp add: fetchAllServers_def fetchAllServers_loop.simps fetchServers_def
      sample_registry_def truthy_str_def ok_def Let_def sample_entry_def)

text \<open>
  C6. Whatever pages the registry serves, every entry of a list returned by
  \<open>fetchAllServers\<close>, and so by \<open>fetchUpdatedServers\<close>, has \<open>isLatest = true\<close>.
\<close>

theorem fetchAllServers_only_latest:
  "(fetchAllServers http options = Some (Inr es) \<longrightarrow>
      (\<forall>e \<in> set es. meta_isLatest (meta e))) \<and>
   (fetchUpdatedServers http since = Some (Inr es') \<longrightarrow>
      (\<forall>e \<in> set es'. meta_isLatest (meta e)))"
  using fetchAllServers_latest [of http options es]
    fetchAllServers_latest [of http _ es']
  by (auto simp: fetchUpdatedServers_def)

text \<open>On the two-page registry both functions return, and the superseded entry of
  the first page is not in the result.\<close>

theorem fetchAllServers_only_latest_witness:
  "fetchAllServers sample_registry
     \<lparr>opt_limit = None, opt_cursor = None, opt_updatedSince = None\<rparr> =
     Some (Inr [sample_entry ''acme/tool'' ''A tool'' Active True,
                sample_entry ''beta/kit'' ''A kit'' Active True]) \<and>
   fetchUpdatedServers sample_registry ''2024-02-01T00:00:00.000Z'' =
     Some (Inr [sample_entry ''acme/tool'' ''A tool'' Active True,
                sample_entry ''beta/kit'' ''A kit'' Active True]) \<and>
   meta_isLatest (meta (sample_entry ''acme/tool'' ''A tool'' Active True)) \<and>
   meta_isLatest (meta (sample_entry ''beta/kit'' ''A kit'' Active True))"
  using fetchAllServers_only_latest
    [of sample_registry "\<lparr>opt_limit = None, opt_cursor = None, opt_updatedSince = None\<rparr>"
      "[sample_entry ''acme/tool'' ''A tool'' Active True,
        sample_entry ''beta/kit'' ''A kit'' Active True]"
      "''2024-02-01T00:00:00.000Z''"
      "[sample_entry ''acme/tool'' ''A tool'' Active True,
        sample_entry ''beta/kit'' ''A kit'' Active True]"]
  by (simp add: fetchAllServers_sample fetchUpdatedServers_def)

section \<open>Properties of the enrichment coordinator\<close>



lemma isEnrichmentFresh_within:
  "isEnrichmentFresh w srv age_limit = (\<exists>m. age_limit = Some m \<and> fresh_within w srv m)"
  by (auto simp: isEnrichmentFresh_def fresh_within_def Let_def split: option.splits)

lemma enrichServer_fresh:
  "req_skipIfFresh (merge_options DEFAULT_OPTIONS options) = Some True \<Longrightarrow>
   isEnrichmentFresh w srv (req_maxAge (merge_options DEFAULT_OPTIONS options)) \<Longrightarrow>
   enrichServer w srv options = (srv, [])"
  by (simp add: enrichServer_def Let_def)

lemma enrichServer_name: "name (fst (enrichServer w srv options)) = name srv"
  by (simp add: enrichServer_def Let_def split: prod.splits)

lemma toISOString_nonempty: "toISOString t \<noteq> []"
  by (simp add: toISOString_def Let_def split: prod.splits)

lemma object_assign_lastEnrichedAt:
  "p_lastEnrichedAt r = None \<Longrightarrow> lastEnrichedAt (object_assign e r) = lastEnrichedAt e"
  by (simp add: object_assign_def)

lemma run_enrichers_lastEnrichedAt:
  assumes "\<forall>(nm, fn) \<in> set es. \<forall>r. fn srv = Inr (Some r) \<longrightarrow> p_lastEnrichedAt r = None"
  shows "lastEnrichedAt (fst (run_enrichers es d srv e evs)) = lastEnrichedAt e"
  using assms
proof (induction es arbitrary: e evs)
  case Nil
  then show ?case by simp
next
  case (Cons a es)
  obtain nm fn where a: "a = (nm, fn)" by (cases a)
  have rest: "\<forall>(nm, fn) \<in> set es. \<forall>r. fn srv = Inr (Some r) \<longrightarrow> p_lastEnrichedAt r = None"
    using Cons.prems by simp
  show ?case
  proof (cases "fn srv")
    case (Inl err)
    then show ?thesis using Cons.IH [OF rest] a by simp
  next
    case (Inr res)
    show ?thesis
    proof (cases res)
      case None
      then show ?thesis using Cons.IH [OF rest] a Inr by simp
    next
      case (Some r)
      then have "p_lastEnrichedAt r = None" using Cons.prems a Inr by simp
      then show ?thesis
        using Cons.IH [OF rest] a Inr Some by (simp add: object_assign_lastEnrichedAt)
    qed
  qed
qed

lemma enrichers_own_key:
  "\<forall>(nm, fn) \<in> set (enrichers w). \<forall>r. fn srv = Inr (Some r) \<longrightarrow> p_lastEnrichedAt r = None"
  by (auto simp: enrichers_def keyed_def no_keys_def split: sum.splits)

lemma enrichServer_stamp:
  assumes "\<not> (req_skipIfFresh (merge_options DEFAULT_OPTIONS options) = Some True \<and>
      isEnrichmentFresh w srv (req_maxAge (merge_options DEFAULT_OPTIONS options)))"
  shows "lastEnrichedAt (enrichment (fst (enrichServer w srv options))) =
      toISOString (call_time w + int (stamp_elapsed w))"
proof -
  let ?e0 = "(enrichment srv)\<lparr>lastEnrichedAt := toISOString (call_time w + int (stamp_elapsed w))\<rparr>"
  let ?d = "req_delayMs (merge_options DEFAULT_OPTIONS options)"
  have "enrichment (fst (enrichServer w srv options)) =
      fst (run_enrichers (enrichers w) ?d srv ?e0 [])"
    using assms by (auto simp: enrichServer_def Let_def split: prod.splits)
  then show ?thesis
    using run_enrichers_lastEnrichedAt [OF enrichers_own_key, where d = ?d and e = ?e0 and evs = "[]"]
    by simp
qed

text \<open>A caller that sets \<open>maxAge\<close> to \<open>undefined\<close> switches the freshness check
  off: the default does not come back, and every record is enriched again.\<close>

lemma enrichServer_undefined_maxAge:
  assumes "maxAge options = Undefined"
  shows "lastEnrichedAt (enrichment (fst (enrichServer w srv options))) =
      toISOString (call_time w + int (stamp_elapsed w))"
proof (rule enrichServer_stamp)
  have "req_maxAge (merge_options DEFAULT_OPTIONS options) = None"
    using assms by (simp add: merge_options_def spread_def)
  then show "\<not> (req_skipIfFresh (merge_options DEFAULT_OPTIONS options) = Some True \<and>
      isEnrichmentFresh w srv (req_maxAge (merge_options DEFAULT_OPTIONS options)))"
    by (simp add: isEnrichmentFresh_within)
qed

lemma call_results_append:
  "call_results worlds opts k (xs @ ys) =
     call_results worlds opts k xs @ call_results worlds opts (k + length xs) ys"
  by (simp add: call_results_def enumerate_append_eq)

lemma enrichServers_loop_returns:
  assumes c: "0 < splice_count (req_concurrency opts)"
  shows "\<exists>evs'. enrichServers_loop worlds opts queue k results evs =
            Some (results @ map fst (call_results worlds opts k queue), evs') \<and>
          set evs' \<subseteq> set evs \<union> {Slept (map_option (\<lambda>d. d * 2) (req_delayMs opts))} \<union>
                      (\<Union>r \<in> set (call_results worlds opts k queue). set (snd r))"
proof (induction "length queue" arbitrary: queue k results evs rule: less_induct)
  case less
  show ?case
  proof (cases "queue = []")
    case True
    then show ?thesis
      by (subst enrichServers_loop.simps) (auto simp add: call_results_def)
  next
    case False
    let ?c = "splice_count (req_concurrency opts)"
    let ?batch = "take ?c queue"
    let ?queue' = "drop ?c queue"
    let ?br = "call_results worlds opts k ?batch"
    let ?evs1 = "evs @ concat (map snd ?br) @
                   (if length ?queue' > 0 then [Slept (map_option (\<lambda>d. d * 2) (req_delayMs opts))] else [])"
    have cpos: "0 < ?c" using c .
    have shorter: "length ?queue' < length queue"
      using False cpos by (cases queue) auto
    obtain evs' where
      rec: "enrichServers_loop worlds opts ?queue' (k + length ?batch)
              (results @ map fst ?br) ?evs1 =
            Some ((results @ map fst ?br) @
                  map fst (call_results worlds opts (k + length ?batch) ?queue'), evs')"
      and sub: "set evs' \<subseteq> set ?evs1 \<union> {Slept (map_option (\<lambda>d. d * 2) (req_delayMs opts))} \<union>
           (\<Union>r \<in> set (call_results worlds opts (k + length ?batch) ?queue'). set (snd r))"
      using less [OF shorter, of "k + length ?batch" "results @ map fst ?br" ?evs1] by blast
    have split: "call_results worlds opts k queue =
        ?br @ call_results worlds opts (k + length ?batch) ?queue'"
      using call_results_append [of worlds opts k ?batch ?queue'] by simp
    have unfold: "enrichServers_loop worlds opts queue k results evs =
        enrichServers_loop worlds opts ?queue' (k + length ?batch)
              (results @ map fst ?br) ?evs1"
      using False
      by (subst enrichServers_loop.simps) (simp add: Let_def call_results_def)
    have "set evs' \<subseteq> set evs \<union> {Slept (map_option (\<lambda>d. d * 2) (req_delayMs opts))} \<union>
                      (\<Union>r \<in> set (call_results worlds opts k queue). set (snd r))"
      using sub unfolding split by auto
    then show ?thesis
      using rec unfolding unfold split by simp
  qed
qed



lemma toISOString_sample: "toISOString 1700000000002 = ''2023-11-14T22:13:20.002Z''"
  by code_simp

lemma fetchWithRetry_answered:
  "fst (fetchWithRetry (\<lambda>attempt timeout. Responded r) 3 10000) = Inr r"
  by (simp add: fetchWithRetry_def fetchWithRetry_loop.simps)

lemma fetchWithRetry_unreachable:
  "fst (fetchWithRetry (\<lambda>attempt timeout. Threw timeout_error) 3 10000) = Inl timeout_error"
  by (simp add: fetchWithRetry_def fetchWithRetry_loop.simps isRetriableError_def
      timeout_error_def)

text \<open>Of two rejected requests \<open>Promise.all\<close> reports the one that settles first,
  whatever its position in the array.\<close>

lemma promise_all3_first_settled:
  "promise_all3 [2, 0, 1] (Inl a) (Inr y) (Inl c) = Inl c"
  "promise_all3 [0, 2, 1] (Inl a) (Inr y) (Inl c) = Inl a"
  by (simp_all add: promise_all3_def rejection_def)

text \<open>A key that the object does not have as its own still finds the members of
  \<open>Object.prototype\<close>.\<close>

lemma js_get_cases:
  "js_get [(''1.0.0'', v)] ''1.0.0'' = Own v"
  "js_get [(''1.0.0'', v)] ''2.0.0'' = Missing"
  "js_get [(''1.0.0'', v)] ''constructor'' = Inherited"
  "js_get [(''constructor'', v)] ''constructor'' = Own v"
  by (simp_all add: js_get_def Object_prototype_names_def)


lemma enrichNpm_down:
  "findNpmPackage s = Some pkg \<Longrightarrow> enrichNpm npm_down s = Inl timeout_error"
  by (simp add: enrichNpm_def npm_down_def fetchPackageData_def fetchDownloads_def
       fetchWithRetry_answered fetchWithRetry_unreachable promise_all3_def rejection_def
       ok_def)

lemma new_server_fields:
  "name new_server = ''acme/tool''"
  "findNpmPackage new_server = Some ''acme-tool''"
  "enrichment new_server =
     \<lparr>lastEnrichedAt = [], github = None, npm = None, pypi = None, nuget = None,
      docker = None, mcpb = None\<rparr>"
  by (simp_all add: new_server_def findNpmPackage_def convertRegistryEntry_def
       sample_entry_def Let_def)

lemma new_server_not_fresh: "\<not> isEnrichmentFresh w new_server m"
  by (simp add: isEnrichmentFresh_def new_server_fields Let_def)


lemma sample_world_clock:
  "call_time (sample_world t net) = t"
  "check_elapsed (sample_world t net) = 1"
  "stamp_elapsed (sample_world t net) = 2"
  "date_parse (sample_world t net) = sample_date_parse"
  by (simp_all add: sample_world_def)


lemma run_enrichers_down:
  assumes "findNpmPackage s = Some pkg"
  shows "run_enrichers (enrichers (sample_world t npm_down)) d s e [] =
    (e,
     [Invoked ''GitHub'', Slept d, Invoked ''npm'', Caught ''npm'' timeout_error, Slept d,
      Invoked ''PyPI'', Slept d, Invoked ''NuGet'', Slept d,
      Invoked ''Docker'', Slept d, Invoked ''MCPB'', Slept d])"
  using enrichNpm_down [OF assms]
  by (simp add: enrichers_def keyed_def sample_world_def)


lemma sample_server_fresh:
  "isEnrichmentFresh (sample_world 1700000060000 net) (sample_server n 1700000000002)
     (Some 86400000)"
  by (simp add: isEnrichmentFresh_def sample_server_fields toISOString_sample Let_def
       sample_world_clock sample_date_parse_def Date_now_def)

lemma down_run:
  "enrichServer (sample_world 1700000000000 npm_down) new_server no_options =
    (new_server\<lparr>enrichment := (enrichment new_server)\<lparr>lastEnrichedAt := ''2023-11-14T22:13:20.002Z''\<rparr>\<rparr>,
     [Invoked ''GitHub'', Slept (Some 100),
      Invoked ''npm'', Caught ''npm'' timeout_error, Slept (Some 100),
      Invoked ''PyPI'', Slept (Some 100), Invoked ''NuGet'', Slept (Some 100),
      Invoked ''Docker'', Slept (Some 100), Invoked ''MCPB'', Slept (Some 100)])"
  using toISOString_sample
  by (simp add: enrichServer_def Let_def new_server_not_fresh
       run_enrichers_down [OF new_server_fields(2)]
       no_options_def merge_options_def spread_def DEFAULT_OPTIONS_def sample_world_clock)











text \<open>
  C9. A record that is not skipped as fresh comes back from \<open>enrichServer\<close> with
  \<open>lastEnrichedAt\<close> equal to the ISO string of the time read by the call for the
  stamp, whatever the enrichers return or throw; the stamp is not empty and its
  time is not before the time of the call.
\<close>

theorem enrichServer_stamps_lastEnrichedAt:
  "\<not> (req_skipIfFresh (merge_options DEFAULT_OPTIONS options) = Some True \<and>
      isEnrichmentFresh w srv (req_maxAge (merge_options DEFAULT_OPTIONS options))) \<longrightarrow>
   lastEnrichedAt (enrichment (fst (enrichServer w srv options))) =
      toISOString (call_time w + int (stamp_elapsed w)) \<and>
   lastEnrichedAt (enrichment (fst (enrichServer w srv options))) \<noteq> [] \<and>
   (\<exists>t \<ge> call_time w. lastEnrichedAt (enrichment (fst (enrichServer w srv options))) = toISOString t)"
proof
  assume h: "\<not> (req_skipIfFresh (merge_options DEFAULT_OPTIONS options) = Some True \<and>
      isEnrichmentFresh w srv (req_maxAge (merge_options DEFAULT_OPTIONS options)))"
  have st: "lastEnrichedAt (enrichment (fst (enrichServer w srv options))) =
      toISOString (call_time w + int (stamp_elapsed w))"
    using enrichServer_stamp [OF h] .
  have "call_time w \<le> call_time w + int (stamp_elapsed w)" by simp
  then show "lastEnrichedAt (enrichment (fst (enrichServer w srv options))) =
      toISOString (call_time w + int (stamp_elapsed w)) \<and>
   lastEnrichedAt (enrichment (fst (enrichServer w srv options))) \<noteq> [] \<and>
   (\<exists>t \<ge> call_time w. lastEnrichedAt (enrichment (fst (enrichServer w srv options))) = toISOString t)"
    using st toISOString_nonempty by metis
qed

text \<open>With the npm registry unreachable, so that the npm enricher throws, and
  the others returning null, the record is still stamped.\<close>

theorem enrichServer_stamps_lastEnrichedAt_witness:
  "\<not> isEnrichmentFresh (sample_world 1700000000000 npm_down) new_server
        (req_maxAge (merge_options DEFAULT_OPTIONS no_options)) \<and>
   lastEnrichedAt (enrichment
     (fst (enrichServer (sample_world 1700000000000 npm_down) new_server no_options))) =
     ''2023-11-14T22:13:20.002Z'' \<and>
   npm (enrichment
     (fst (enrichServer (sample_world 1700000000000 npm_down) new_server no_options))) = None"
  using enrichServer_stamps_lastEnrichedAt
      [of no_options "sample_world 1700000000000 npm_down" new_server]
  by (simp add: new_server_not_fresh down_run new_server_fields(3))

text \<open>
  C5 does not hold of the npm enricher. When the npm registry cannot be reached,
  \<open>fetchWithRetry\<close> throws after its third attempt and \<open>enrichNpm\<close>, which has no
  \<open>try\<close>, throws that error to its caller instead of returning null. It is the
  coordinator that catches it.
\<close>

theorem enrichNpm_throws_when_unreachable:
  "enrichNpm npm_down new_server = Inl timeout_error \<and>
   snd (enrichServer (sample_world 1700000000000 npm_down) new_server no_options) =
     [Invoked ''GitHub'', Slept (Some 100),
      Invoked ''npm'', Caught ''npm'' timeout_error, Slept (Some 100),
      Invoked ''PyPI'', Slept (Some 100), Invoked ''NuGet'', Slept (Some 100),
      Invoked ''Docker'', Slept (Some 100), Invoked ''MCPB'', Slept (Some 100)]"
  by (simp add: enrichNpm_down [OF new_server_fields(2)] down_run)

section \<open>Properties of the sync orchestrator\<close>

lemma convert_name: "name (convertRegistryEntry e) = rs_name (server e)"
  by (simp add: convertRegistryEntry_def Let_def)

lemma convert_status: "status (convertRegistryEntry e) = meta_status (meta e)"
  by (simp add: convertRegistryEntry_def Let_def)

lemma merged_record_name: "name (merged_record ex e) = rs_name (server e)"
  by (simp add: merged_record_def convert_name split: option.splits)

lemma merge_entry_eq:
  "merge_entry ex m e =
     (if meta_status (meta e) = Deleted then AList.delete (rs_name (server e)) m
      else AList.update (rs_name (server e)) (merged_record ex e) m)"
  by (simp add: merge_entry_def merged_record_def Let_def convert_name convert_status
        split: option.splits)

lemma update_entries:
  "(\<forall>(k', v') \<in> set m. P k' v') \<Longrightarrow> P k v \<Longrightarrow>
   (\<forall>(k', v') \<in> set (AList.update k v m). P k' v')"
  by (induction m) auto

lemma keyed_update:
  "keyed_by_name m \<Longrightarrow> name v = k \<Longrightarrow> keyed_by_name (AList.update k v m)"
  unfolding keyed_by_name_def
  using update_entries [of m "\<lambda>k v. name v = k" k v]
  by (simp add: AList.distinct_update)

lemma keyed_delete: "keyed_by_name m \<Longrightarrow> keyed_by_name (AList.delete k m)"
proof -
  assume h: "keyed_by_name m"
  have "set (AList.delete k m) \<subseteq> set m" by (auto simp: AList.delete_eq)
  then show ?thesis
    using h unfolding keyed_by_name_def by (auto simp: AList.distinct_delete)
qed

lemma keyed_lookup:
  "keyed_by_name m \<Longrightarrow> (k, v) \<in> set m \<Longrightarrow> map_of m k = Some v \<and> name v = k"
  unfolding keyed_by_name_def by auto

lemma keyed_value_name:
  "keyed_by_name m \<Longrightarrow> v \<in> snd ` set m \<Longrightarrow> map_of m (name v) = Some v"
  unfolding keyed_by_name_def by auto

lemma keyed_merge_entry: "keyed_by_name m \<Longrightarrow> keyed_by_name (merge_entry ex m e)"
  by (simp add: merge_entry_eq keyed_update keyed_delete merged_record_name)

lemma keyed_merge_all: "keyed_by_name m \<Longrightarrow> keyed_by_name (foldl (merge_entry ex) m es)"
  by (induction es arbitrary: m) (auto simp: keyed_merge_entry)

lemma keyed_new_Map_aux:
  "keyed_by_name m \<Longrightarrow> keyed_by_name (foldl (\<lambda>m (k, v). AList.update k v m) m (map (\<lambda>s. (name s, s)) srvs))"
  by (induction srvs arbitrary: m) (auto simp: keyed_update)

lemma keyed_loadServers: "keyed_by_name (loadServers file)"
  using keyed_new_Map_aux [of "[]"]
  by (auto simp: loadServers_def new_Map_def keyed_by_name_def split: option.splits)

lemma merge_entry_other:
  "rs_name (server e) \<noteq> n \<Longrightarrow> map_of (merge_entry ex m e) n = map_of m n"
  by (simp add: merge_entry_eq AList.update_conv' AList.delete_conv')

lemma merge_all_other:
  "\<forall>x \<in> set es. rs_name (server x) \<noteq> n \<Longrightarrow>
   map_of (foldl (merge_entry ex) m es) n = map_of m n"
  by (induction es arbitrary: m) (auto simp: merge_entry_other)

lemma merge_entry_same:
  "map_of (merge_entry ex m e) (rs_name (server e)) =
     (if meta_status (meta e) = Deleted then None else Some (merged_record ex e))"
  by (simp add: merge_entry_eq AList.update_conv' AList.delete_conv')

lemma merge_all_last:
  assumes "\<forall>x \<in> set post. rs_name (server x) \<noteq> rs_name (server e)"
  shows "map_of (foldl (merge_entry ex) m (pre @ e # post)) (rs_name (server e)) =
     (if meta_status (meta e) = Deleted then None else Some (merged_record ex e))"
  using merge_all_other [OF assms] by (simp add: merge_entry_same)

lemma merge_all_deleted:
  assumes "map_of m n = None"
    and "\<forall>x \<in> set es. rs_name (server x) = n \<longrightarrow> meta_status (meta x) = Deleted"
  shows "map_of (foldl (merge_entry ex) m es) n = None"
  using assms
proof (induction es arbitrary: m)
  case Nil
  then show ?case by simp
next
  case (Cons x es)
  have "map_of (merge_entry ex m x) n = None"
  proof (cases "rs_name (server x) = n")
    case True
    then show ?thesis using Cons.prems(2) merge_entry_same [of ex m x] by simp
  next
    case False
    then show ?thesis using Cons.prems(1) by (simp add: merge_entry_other)
  qed
  then show ?case using Cons.IH [of "merge_entry ex m x"] Cons.prems(2) by simp
qed

lemma merge_all_last_deleted:
  assumes "meta_status (meta e) = Deleted"
    and "\<forall>x \<in> set post. rs_name (server x) = rs_name (server e) \<longrightarrow> meta_status (meta x) = Deleted"
  shows "map_of (foldl (merge_entry ex) m (pre @ e # post)) (rs_name (server e)) = None"
proof -
  have "map_of (merge_entry ex (foldl (merge_entry ex) m pre) e) (rs_name (server e)) = None"
    using assms(1) by (simp add: merge_entry_same)
  then show ?thesis
    using merge_all_deleted [OF _ assms(2), of "merge_entry ex (foldl (merge_entry ex) m pre) e" ex]
    by simp
qed

text \<open>Writing the enriched records back.\<close>

lemma keyed_write_back:
  "keyed_by_name m \<Longrightarrow> keyed_by_name (foldl (\<lambda>m s. AList.update (name s) s m) m xs)"
  by (induction xs arbitrary: m) (auto simp: keyed_update)

lemma write_back_keys:
  "fst ` set (foldl (\<lambda>m s. AList.update (name s) s m) m xs) = fst ` set m \<union> name ` set xs"
  by (induction xs arbitrary: m) (auto simp: AList.dom_update)

lemma write_back_lookup:
  assumes "map_of m n = Some s" and "\<forall>x \<in> set xs. name x = n \<longrightarrow> x = s"
  shows "map_of (foldl (\<lambda>m s. AList.update (name s) s m) m xs) n = Some s"
  using assms
proof (induction xs arbitrary: m)
  case Nil
  then show ?case by simp
next
  case (Cons x xs)
  have "map_of (AList.update (name x) x m) n = Some s"
    using Cons.prems by (auto simp: AList.update_conv')
  then show ?case using Cons.IH [of "AList.update (name x) x m"] Cons.prems(2) by simp
qed


lemma sync_options_merged:
  "as_options (merge_options DEFAULT_OPTIONS (sync_options full)) = sync_options full"
  "req_concurrency (merge_options DEFAULT_OPTIONS (sync_options full)) = Some 2"
  "req_skipIfFresh (merge_options DEFAULT_OPTIONS (sync_options full)) = Some (\<not> full)"
  "req_maxAge (merge_options DEFAULT_OPTIONS (sync_options full)) = Some 86400000"
  by (simp_all add: sync_options_def merge_options_def as_options_def spread_def present_def)

lemma call_results_member:
  assumes "x \<in> set (call_results worlds opts k srvs)"
  shows "\<exists>i s. s \<in> set srvs \<and> x = enrichServer (worlds i) s (as_options opts)"
proof -
  from assms obtain i s where
    p: "(i, s) \<in> set (enumerate k srvs)" and x: "x = enrichServer (worlds i) s (as_options opts)"
    by (auto simp: call_results_def)
  from p have "i - k < length srvs" "s = srvs ! (i - k)"
    by (auto simp: in_set_enumerate_eq)
  then have "s \<in> set srvs" by simp
  then show ?thesis using x by blast
qed

lemma enrichServers_result:
  assumes "0 < splice_count (req_concurrency (merge_options DEFAULT_OPTIONS options))"
  shows "\<exists>evs. enrichServers worlds srvs options =
     Some (map fst (call_results worlds (merge_options DEFAULT_OPTIONS options) 0 srvs), evs)"
  using enrichServers_loop_returns [OF assms, of worlds srvs 0 "[]" "[]"]
  by (auto simp: enrichServers_def)

lemma sync_enrich_result:
  "\<exists>xs evs. sync_enrich worlds full entries m =
       Some (foldl (\<lambda>m s. AList.update (name s) s m) m xs, evs) \<and>
     (\<forall>x \<in> set xs. \<exists>i s. s \<in> snd ` set m \<and>
                       x = fst (enrichServer (worlds i) s (sync_options full)))"
proof (cases "length entries > 0")
  case False
  then have "sync_enrich worlds full entries m =
      Some (foldl (\<lambda>m s. AList.update (name s) s m) m [], [])"
    by (simp add: sync_enrich_def)
  then show ?thesis by (intro exI [of _ "[]"] exI [of _ "[]"]) simp
next
  case True
  let ?all = "map snd m"
  let ?toEnrich = "if full then ?all
        else filter (\<lambda>s. list_ex (\<lambda>e. rs_name (server e) = name s) entries) ?all"
  let ?opts = "merge_options DEFAULT_OPTIONS (sync_options full)"
  let ?xs = "map fst (call_results worlds ?opts 0 ?toEnrich)"
  obtain evs where r: "enrichServers worlds ?toEnrich (sync_options full) = Some (?xs, evs)"
    using enrichServers_result [of "sync_options full" worlds ?toEnrich]
    by (auto simp: sync_options_merged splice_count_def)
  have run: "sync_enrich worlds full entries m =
      Some (foldl (\<lambda>m s. AList.update (name s) s m) m ?xs, evs)"
    using True r unfolding sync_enrich_def Let_def sync_options_def by simp
  have sub: "set ?toEnrich \<subseteq> snd ` set m" by auto
  have "\<exists>i s. s \<in> snd ` set m \<and> x = fst (enrichServer (worlds i) s (sync_options full))"
    if "x \<in> set ?xs" for x
  proof -
    from that obtain y where y: "y \<in> set (call_results worlds ?opts 0 ?toEnrich)" "x = fst y"
      by auto
    from call_results_member [OF y(1)] obtain i s where
      s: "s \<in> set ?toEnrich" and ys: "y = enrichServer (worlds i) s (as_options ?opts)"
      by blast
    have "s \<in> snd ` set m" using s sub by blast
    moreover have "x = fst (enrichServer (worlds i) s (sync_options full))"
      using ys y(2) by (simp add: sync_options_merged)
    ultimately show ?thesis by blast
  qed
  then show ?thesis using run by blast
qed

lemma sync_parts:
  assumes "sync w = Some (Inr res)"
  shows "res_doFullSync res = shouldDoFullSync w (prior_state w) \<and>
    sync_fetch w (res_doFullSync res) = Some (Inr (res_entries res)) \<and>
    sync_enrich (enrich_worlds w) (res_doFullSync res) (res_entries res)
      (foldl (merge_entry (loadServers (prior_snapshot w))) (loadServers (prior_snapshot w))
         (res_entries res)) = Some (res_updatedServers res, res_events res) \<and>
    res_snapshot res = saveServers (collation_key w)
      (map computeServerFields (map snd (res_updatedServers res)))"
  using assms unfolding sync_def Let_def
  by (auto split: option.splits sum.splits prod.splits)

lemma sync_returns:
  assumes "sync_fetch w (shouldDoFullSync w (prior_state w)) = Some (Inr entries)"
  shows "\<exists>res. sync w = Some (Inr res) \<and> res_entries res = entries \<and>
           res_doFullSync res = shouldDoFullSync w (prior_state w)"
proof -
  obtain xs evs where "sync_enrich (enrich_worlds w) (shouldDoFullSync w (prior_state w)) entries
      (foldl (merge_entry (loadServers (prior_snapshot w))) (loadServers (prior_snapshot w))
         entries) = Some (foldl (\<lambda>m s. AList.update (name s) s m)
           (foldl (merge_entry (loadServers (prior_snapshot w))) (loadServers (prior_snapshot w))
         entries) xs, evs)"
    using sync_enrich_result by blast
  then show ?thesis
    using assms unfolding sync_def Let_def by simp
qed


lemma saveServers_set: "set (saveServers key srvs) = set srvs"
  by (simp add: saveServers_def)

lemma keyed_keys:
  "keyed_by_name m \<Longrightarrow> v \<in> snd ` set m \<Longrightarrow> name v \<in> fst ` set m"
  unfolding keyed_by_name_def by force

lemma isEnrichmentFresh_enrichment:
  "enrichment s = enrichment s' \<Longrightarrow> isEnrichmentFresh w s m = isEnrichmentFresh w s' m"
  by (simp add: isEnrichmentFresh_def)

text \<open>What a run leaves in the working collection, in terms of the merge loop.\<close>

lemma sync_write_back:
  assumes run: "sync w = Some (Inr res)"
  shows "\<exists>xs. res_updatedServers res =
        foldl (\<lambda>m s. AList.update (name s) s m)
          (foldl (merge_entry (loadServers (prior_snapshot w))) (loadServers (prior_snapshot w))
             (res_entries res)) xs \<and>
      (\<forall>x \<in> set xs. \<exists>i s.
          s \<in> snd ` set (foldl (merge_entry (loadServers (prior_snapshot w)))
                 (loadServers (prior_snapshot w)) (res_entries res)) \<and>
          x = fst (enrichServer (enrich_worlds w i) s (sync_options (res_doFullSync res))))"
proof -
  let ?ex = "loadServers (prior_snapshot w)"
  let ?m = "foldl (merge_entry ?ex) ?ex (res_entries res)"
  note parts = sync_parts [OF run]
  obtain xs evs where
    e: "sync_enrich (enrich_worlds w) (res_doFullSync res) (res_entries res) ?m =
          Some (foldl (\<lambda>m s. AList.update (name s) s m) ?m xs, evs)"
    and xs: "\<forall>x \<in> set xs. \<exists>i s. s \<in> snd ` set ?m \<and>
          x = fst (enrichServer (enrich_worlds w i) s (sync_options (res_doFullSync res)))"
    using sync_enrich_result [of "enrich_worlds w" "res_doFullSync res" "res_entries res" ?m]
    by blast
  have "res_updatedServers res = foldl (\<lambda>m s. AList.update (name s) s m) ?m xs"
    using parts e by simp
  then show ?thesis using xs by (intro exI [of _ xs] conjI)
qed

lemma sync_invariants:
  assumes run: "sync w = Some (Inr res)"
  shows "keyed_by_name (foldl (merge_entry (loadServers (prior_snapshot w)))
           (loadServers (prior_snapshot w)) (res_entries res))"
    and "keyed_by_name (res_updatedServers res)"
    and "fst ` set (res_updatedServers res) =
           fst ` set (foldl (merge_entry (loadServers (prior_snapshot w)))
             (loadServers (prior_snapshot w)) (res_entries res))"
    and "set (res_snapshot res) = computeServerFields ` snd ` set (res_updatedServers res)"
proof -
  let ?ex = "loadServers (prior_snapshot w)"
  let ?m = "foldl (merge_entry ?ex) ?ex (res_entries res)"
  from sync_write_back [OF run] obtain xs where
    final: "res_updatedServers res = foldl (\<lambda>m s. AList.update (name s) s m) ?m xs"
    and xs: "\<forall>x \<in> set xs. \<exists>i s. s \<in> snd ` set ?m \<and>
          x = fst (enrichServer (enrich_worlds w i) s (sync_options (res_doFullSync res)))"
    by (elim exE conjE)
  show km: "keyed_by_name ?m"
    by (intro keyed_merge_all keyed_loadServers)
  show "keyed_by_name (res_updatedServers res)"
    unfolding final by (intro keyed_write_back km)
  have "name ` set xs \<subseteq> fst ` set ?m"
  proof
    fix n assume "n \<in> name ` set xs"
    then obtain x where x: "x \<in> set xs" "n = name x" by (elim imageE)
    with xs obtain i s where s: "s \<in> snd ` set ?m"
      "x = fst (enrichServer (enrich_worlds w i) s (sync_options (res_doFullSync res)))"
      by blast
    then have "name x = name s" by (simp add: enrichServer_name)
    then show "n \<in> fst ` set ?m" using keyed_keys [OF km s(1)] x(2) by simp
  qed
  then show "fst ` set (res_updatedServers res) = fst ` set ?m"
    unfolding final write_back_keys by (rule Un_absorb2)
  show "set (res_snapshot res) = computeServerFields ` snd ` set (res_updatedServers res)"
    using sync_parts [OF run] by (simp add: saveServers_set image_image)
qed

text \<open>
  C4, as the code has it. When a fetched entry has status \<open>deleted\<close> and no later
  entry of the same fetch carries its name with another status, the working
  collection and the persisted snapshot hold no record of that name after the
  run, whatever the prior snapshot held under it.
\<close>

theorem sync_removes_deleted:
  "sync w = Some (Inr res) \<and> res_entries res = pre @ e # post \<and>
   meta_status (meta e) = Deleted \<and>
   (\<forall>x \<in> set post. rs_name (server x) = rs_name (server e) \<longrightarrow>
                     meta_status (meta x) = Deleted) \<longrightarrow>
   map_of (res_updatedServers res) (rs_name (server e)) = None \<and>
   (\<forall>r \<in> snd ` set (res_updatedServers res). name r \<noteq> rs_name (server e)) \<and>
   (\<forall>r \<in> set (res_snapshot res). name r \<noteq> rs_name (server e))"
proof (intro impI, elim conjE)
  assume run: "sync w = Some (Inr res)"
    and entries: "res_entries res = pre @ e # post"
    and deleted: "meta_status (meta e) = Deleted"
    and later: "\<forall>x \<in> set post. rs_name (server x) = rs_name (server e) \<longrightarrow>
                     meta_status (meta x) = Deleted"
  let ?n = "rs_name (server e)"
  let ?ex = "loadServers (prior_snapshot w)"
  let ?m = "foldl (merge_entry ?ex) ?ex (res_entries res)"
  note kf = sync_invariants(2) [OF run] and keys = sync_invariants(3) [OF run]
    and snap = sync_invariants(4) [OF run]
  have "map_of ?m ?n = None"
    unfolding entries using merge_all_last_deleted [OF deleted later] .
  then have "?n \<notin> fst ` set ?m" by (rule map_of_eq_None_iff [THEN iffD1])
  then have absent: "?n \<notin> fst ` set (res_updatedServers res)" unfolding keys .
  then have none: "map_of (res_updatedServers res) ?n = None"
    by (rule map_of_eq_None_iff [THEN iffD2])
  have vals: "\<forall>r \<in> snd ` set (res_updatedServers res). name r \<noteq> ?n"
  proof
    fix r assume "r \<in> snd ` set (res_updatedServers res)"
    then have "name r \<in> fst ` set (res_updatedServers res)" by (rule keyed_keys [OF kf])
    then show "name r \<noteq> ?n" using absent by metis
  qed
  have "\<forall>r \<in> set (res_snapshot res). name r \<noteq> ?n"
  proof
    fix r assume "r \<in> set (res_snapshot res)"
    then have "r \<in> computeServerFields ` snd ` set (res_updatedServers res)"
      unfolding snap .
    then obtain v where v: "r = computeServerFields v" "v \<in> snd ` set (res_updatedServers res)"
      by (rule imageE)
    then have "name r = name v" "name v \<noteq> ?n"
      using vals by (simp add: computeServerFields_name, blast)
    then show "name r \<noteq> ?n" by simp
  qed
  then show "map_of (res_updatedServers res) ?n = None \<and>
   (\<forall>r \<in> snd ` set (res_updatedServers res). name r \<noteq> ?n) \<and>
   (\<forall>r \<in> set (res_snapshot res). name r \<noteq> ?n)"
    using none vals by (intro conjI)
qed

text \<open>
  C2, as the code has it. In an incremental run, let the prior snapshot hold
  record \<open>A\<close> with a set \<open>lastEnrichedAt\<close>, let \<open>e\<close> be the last fetched entry with
  A's name, with a status other than \<open>deleted\<close>, and let A's enrichment be fresh,
  within the 24 hours that the orchestrator allows, at every freshness check of
  the run. Then the working collection holds under that name, and the snapshot
  holds as its only record of that name, a record whose ten registry fields
  are those that \<open>e\<close> carries (absent \<open>packages\<close> and \<open>remotes\<close> read as empty
  lists) and whose enrichment is A's: the record is \<open>e\<close> converted, with A's
  enrichment, and in the snapshot its image under \<open>computeServerFields\<close>.
\<close>

theorem sync_update_keeps_enrichment:
  "sync w = Some (Inr res) \<and> \<not> res_doFullSync res \<and>
   map_of (loadServers (prior_snapshot w)) (rs_name (server e)) = Some A \<and>
   lastEnrichedAt (enrichment A) \<noteq> [] \<and>
   res_entries res = pre @ e # post \<and>
   (\<forall>x \<in> set post. rs_name (server x) \<noteq> rs_name (server e)) \<and>
   meta_status (meta e) \<noteq> Deleted \<and>
   (\<forall>i. fresh_within (enrich_worlds w i) A (24 * 60 * 60 * 1000)) \<longrightarrow>
   map_of (res_updatedServers res) (rs_name (server e)) =
     Some ((convertRegistryEntry e)\<lparr>enrichment := enrichment A\<rparr>) \<and>
   computeServerFields ((convertRegistryEntry e)\<lparr>enrichment := enrichment A\<rparr>)
     \<in> set (res_snapshot res) \<and>
   (\<forall>r. map_of (res_updatedServers res) (rs_name (server e)) = Some r \<or>
        r \<in> set (res_snapshot res) \<and> name r = rs_name (server e) \<longrightarrow>
      name r = rs_name (server e) \<and>
      description r = rs_description (server e) \<and>
      version r = rs_version (server e) \<and>
      repository r = rs_repository (server e) \<and>
      packages r = (case rs_packages (server e) of None \<Rightarrow> [] | Some ps \<Rightarrow> ps) \<and>
      remotes r = (case rs_remotes (server e) of None \<Rightarrow> [] | Some rs \<Rightarrow> rs) \<and>
      status r = meta_status (meta e) \<and>
      publishedAt r = meta_publishedAt (meta e) \<and>
      updatedAt r = meta_updatedAt (meta e) \<and>
      isLatest r = meta_isLatest (meta e) \<and>
      enrichment r = enrichment A) \<and>
   (\<forall>r \<in> set (res_snapshot res). name r = rs_name (server e) \<longrightarrow>
      r = computeServerFields ((convertRegistryEntry e)\<lparr>enrichment := enrichment A\<rparr>))"
proof (intro impI, elim conjE)
  assume run: "sync w = Some (Inr res)"
    and incr: "\<not> res_doFullSync res"
    and prior: "map_of (loadServers (prior_snapshot w)) (rs_name (server e)) = Some A"
    and stamped: "lastEnrichedAt (enrichment A) \<noteq> []"
    and entries: "res_entries res = pre @ e # post"
    and last: "\<forall>x \<in> set post. rs_name (server x) \<noteq> rs_name (server e)"
    and kept: "meta_status (meta e) \<noteq> Deleted"
    and fresh: "\<forall>i. fresh_within (enrich_worlds w i) A (24 * 60 * 60 * 1000)"
  let ?n = "rs_name (server e)"
  let ?ex = "loadServers (prior_snapshot w)"
  let ?m = "foldl (merge_entry ?ex) ?ex (res_entries res)"
  let ?s1 = "(convertRegistryEntry e)\<lparr>enrichment := enrichment A\<rparr>"
  let ?fields = "\<lambda>r. name r = rs_name (server e) \<and>
      description r = rs_description (server e) \<and>
      version r = rs_version (server e) \<and>
      repository r = rs_repository (server e) \<and>
      packages r = (case rs_packages (server e) of None \<Rightarrow> [] | Some ps \<Rightarrow> ps) \<and>
      remotes r = (case rs_remotes (server e) of None \<Rightarrow> [] | Some rs \<Rightarrow> rs) \<and>
      status r = meta_status (meta e) \<and>
      publishedAt r = meta_publishedAt (meta e) \<and>
      updatedAt r = meta_updatedAt (meta e) \<and>
      isLatest r = meta_isLatest (meta e) \<and>
      enrichment r = enrichment A"
  from sync_write_back [OF run] obtain xs where
    final: "res_updatedServers res = foldl (\<lambda>m s. AList.update (name s) s m) ?m xs"
    and xs: "\<forall>x \<in> set xs. \<exists>i s. s \<in> snd ` set ?m \<and>
          x = fst (enrichServer (enrich_worlds w i) s (sync_options (res_doFullSync res)))"
    by (elim exE conjE)
  note km = sync_invariants(1) [OF run] and kf = sync_invariants(2) [OF run]
    and snap = sync_invariants(4) [OF run]
  have mr: "merged_record ?ex e = ?s1"
    using prior stamped by (simp add: merged_record_def)
  have at_m: "map_of ?m ?n = Some ?s1"
    unfolding entries using merge_all_last [OF last, of ?ex ?ex pre] kept mr by simp
  have skip: "enrichServer (enrich_worlds w i) ?s1 (sync_options (res_doFullSync res)) = (?s1, [])"
    for i
  proof (rule enrichServer_fresh)
    show "req_skipIfFresh (merge_options DEFAULT_OPTIONS (sync_options (res_doFullSync res))) =
        Some True"
      using incr by (simp add: sync_options_merged)
    have "isEnrichmentFresh (enrich_worlds w i) A (Some 86400000)"
      using fresh by (simp add: isEnrichmentFresh_within)
    then have "isEnrichmentFresh (enrich_worlds w i) ?s1 (Some 86400000)"
      using isEnrichmentFresh_enrichment [of ?s1 A "enrich_worlds w i" "Some 86400000"] by simp
    then show "isEnrichmentFresh (enrich_worlds w i) ?s1
        (req_maxAge (merge_options DEFAULT_OPTIONS (sync_options (res_doFullSync res))))"
      by (simp add: sync_options_merged)
  qed
  have same: "\<forall>x \<in> set xs. name x = ?n \<longrightarrow> x = ?s1"
  proof (intro ballI impI)
    fix x assume x: "x \<in> set xs" "name x = ?n"
    with xs obtain i s where s: "s \<in> snd ` set ?m"
      "x = fst (enrichServer (enrich_worlds w i) s (sync_options (res_doFullSync res)))"
      by blast
    then have "name s = ?n" using x(2) by (simp add: enrichServer_name)
    then have "map_of ?m ?n = Some s" using keyed_value_name [OF km s(1)] by simp
    then have "s = ?s1" using at_m by simp
    then show "x = ?s1" using s(2) skip by simp
  qed
  have at_final: "map_of (res_updatedServers res) ?n = Some ?s1"
    unfolding final using write_back_lookup [OF at_m same] .
  then have "(?n, ?s1) \<in> set (res_updatedServers res)" by (rule map_of_SomeD)
  then have "snd (?n, ?s1) \<in> snd ` set (res_updatedServers res)" by (rule imageI)
  then have "?s1 \<in> snd ` set (res_updatedServers res)" by simp
  then have in_snap: "computeServerFields ?s1 \<in> set (res_snapshot res)"
    unfolding snap by (rule imageI)
  have only: "r = computeServerFields ?s1"
    if "r \<in> set (res_snapshot res)" "name r = ?n" for r
  proof -
    from that(1) have "r \<in> computeServerFields ` snd ` set (res_updatedServers res)"
      unfolding snap .
    then obtain v where v: "r = computeServerFields v" "v \<in> snd ` set (res_updatedServers res)"
      by (rule imageE)
    then have "name v = ?n" using that(2) by (simp add: computeServerFields_name)
    then have "map_of (res_updatedServers res) ?n = Some v"
      using keyed_value_name [OF kf v(2)] by simp
    then show ?thesis using at_final v(1) by simp
  qed
  have f1: "?fields ?s1"
    by (simp add: convertRegistryEntry_def Let_def)
  have f2: "?fields (computeServerFields ?s1)"
    by (simp add: computeServerFields_def convertRegistryEntry_def Let_def)
  have fields: "\<forall>r. map_of (res_updatedServers res) ?n = Some r \<or>
        r \<in> set (res_snapshot res) \<and> name r = ?n \<longrightarrow> ?fields r"
  proof (intro allI impI)
    fix r
    assume a: "map_of (res_updatedServers res) ?n = Some r \<or>
        r \<in> set (res_snapshot res) \<and> name r = ?n"
    then have "r = ?s1 \<or> r = computeServerFields ?s1"
    proof
      assume "map_of (res_updatedServers res) ?n = Some r"
      then have "r = ?s1" using at_final by simp
      then show ?thesis by (rule disjI1)
    next
      assume b: "r \<in> set (res_snapshot res) \<and> name r = ?n"
      have "r = computeServerFields ?s1"
        using only [OF b [THEN conjunct1] b [THEN conjunct2]] .
      then show ?thesis by (rule disjI2)
    qed
    then show "?fields r"
    proof
      assume r: "r = ?s1"
      show ?thesis unfolding r by (rule f1)
    next
      assume r: "r = computeServerFields ?s1"
      show ?thesis unfolding r by (rule f2)
    qed
  qed
  have uniq: "\<forall>r \<in> set (res_snapshot res). name r = ?n \<longrightarrow> r = computeServerFields ?s1"
    using only by (intro ballI impI)
  show "map_of (res_updatedServers res) ?n = Some ?s1 \<and>
   computeServerFields ?s1 \<in> set (res_snapshot res) \<and>
   (\<forall>r. map_of (res_updatedServers res) ?n = Some r \<or>
        r \<in> set (res_snapshot res) \<and> name r = ?n \<longrightarrow> ?fields r) \<and>
   (\<forall>r \<in> set (res_snapshot res). name r = ?n \<longrightarrow> r = computeServerFields ?s1)"
    using at_final in_snap fields uniq by (intro conjI)
qed

lemma sample_sync_world_fields:
  "prior_snapshot (sample_sync_world es) = Some [sample_server ''acme/tool'' 1700000000002]"
  "enrich_worlds (sample_sync_world es) = (\<lambda>i. sample_world 1700000060000 npm_down)"
  "collation_key (sample_sync_world es) = (\<lambda>s. s)"
  by (simp_all add: sample_sync_world_def)

lemma sample_loaded:
  "loadServers (prior_snapshot (sample_sync_world es)) =
     [(''acme/tool'', sample_server ''acme/tool'' 1700000000002)]"
  by (simp add: sample_sync_world_fields loadServers_def new_Map_def sample_server_fields)

lemma sample_incremental:
  "shouldDoFullSync (sample_sync_world es) (prior_state (sample_sync_world es)) = False"
  by (simp add: shouldDoFullSync_def sample_sync_world_def sample_date_parse_def
       FULL_SYNC_INTERVAL_MS_def)

lemma sample_fetch:
  "sync_fetch (sample_sync_world es) False =
     Some (Inr (filter (\<lambda>entry. meta_isLatest (meta entry)) es))"
  by (simp add: sync_fetch_def sample_sync_world_def fetchUpdatedServers_def
       fetchAllServers_def fetchAllServers_loop.simps fetchServers_def ok_def
       truthy_str_def Let_def)

lemma sample_run:
  "\<exists>res. sync (sample_sync_world es) = Some (Inr res) \<and>
     res_entries res = filter (\<lambda>entry. meta_isLatest (meta entry)) es \<and>
     \<not> res_doFullSync res"
  using sync_returns [of "sample_sync_world es" "filter (\<lambda>entry. meta_isLatest (meta entry)) es"]
  by (simp add: sample_incremental sample_fetch)

lemma sample_entry_fields:
  "rs_name (server (sample_entry n d st l)) = n"
  "meta_status (meta (sample_entry n d st l)) = st"
  "meta_isLatest (meta (sample_entry n d st l)) = l"
  "rs_description (server (sample_entry n d st l)) = d"
  by (simp_all add: sample_entry_def)

lemma sample_stamped: "lastEnrichedAt (enrichment (sample_server n t)) \<noteq> []"
  by (simp add: sample_server_fields toISOString_nonempty)

lemma singleton_keys:
  assumes "distinct (map fst al)" "fst ` set al = {k}"
  shows "\<exists>v. al = [(k, v)]"
proof (cases al)
  case Nil
  then show ?thesis using assms(2) by simp
next
  case (Cons p rest)
  then have k: "fst p = k" using assms(2) by auto
  have "rest = []"
  proof (rule ccontr)
    assume "rest \<noteq> []"
    then obtain q where q: "q \<in> set rest" by (cases rest) auto
    then have "fst q = k" using assms(2) Cons by auto
    then show False using assms(1) Cons k q by force
  qed
  then show ?thesis using Cons k by (cases p) auto
qed

lemma saveServers_single: "saveServers key [x] = [x]"
  by (simp add: saveServers_def)

lemma find_unique:
  assumes "x \<in> set xs" "P x" "\<forall>y \<in> set xs. P y \<longrightarrow> y = x"
  shows "find P xs = Some x"
  using assms
proof (induction xs)
  case Nil
  then show ?case by simp
next
  case (Cons a xs)
  show ?case
  proof (cases "P a")
    case True
    have "a \<in> set (a # xs)" by simp
    then have "a = x" using Cons.prems(3) True by blast
    then show ?thesis using True by simp
  next
    case False
    have "x \<noteq> a" using False Cons.prems(2) by blast
    then have mem: "x \<in> set xs" using Cons.prems(1) by simp
    have rest: "\<forall>y \<in> set xs. P y \<longrightarrow> y = x"
      using Cons.prems(3) by (meson list.set_intros(2))
    have "find P xs = Some x" using Cons.IH [OF mem Cons.prems(2) rest] .
    then show ?thesis using False by simp
  qed
qed

lemma find_none: "\<forall>y \<in> set xs. \<not> P y \<Longrightarrow> find P xs = None"
  by (induction xs) auto

lemma single_record_run:
  assumes run: "sync w = Some (Inr res)"
    and m: "fst ` set (foldl (merge_entry (loadServers (prior_snapshot w)))
              (loadServers (prior_snapshot w)) (res_entries res)) = {k}"
  shows "map name (res_snapshot res) = [k]"
proof -
  have keys: "fst ` set (res_updatedServers res) = {k}"
    using sync_invariants(3) [OF run] m by simp
  have kf: "keyed_by_name (res_updatedServers res)"
    using sync_invariants(2) [OF run] .
  then have "distinct (map fst (res_updatedServers res))"
    by (simp add: keyed_by_name_def)
  from singleton_keys [OF this keys] obtain v where
    final: "res_updatedServers res = [(k, v)]" by (elim exE)
  have nv: "name v = k"
    using kf unfolding final keyed_by_name_def by simp
  have "res_snapshot res = [computeServerFields v]"
    using sync_parts [OF run] by (simp add: final saveServers_single)
  then show ?thesis
    by (simp add: computeServerFields_name nv)
qed

lemma no_record_run:
  assumes run: "sync w = Some (Inr res)"
    and m: "fst ` set (foldl (merge_entry (loadServers (prior_snapshot w)))
              (loadServers (prior_snapshot w)) (res_entries res)) = {}"
  shows "map name (res_snapshot res) = []"
proof -
  have "fst ` set (res_updatedServers res) = {}"
    using sync_invariants(3) [OF run] m by simp
  then have final: "res_updatedServers res = []" by simp
  have "res_snapshot res = []"
    using sync_parts [OF run] by (simp add: final saveServers_def)
  then show ?thesis by simp
qed

lemma observe_run:
  assumes "sync w = Some (Inr res)"
  shows "run_summary (sync w) =
           Some (res_doFullSync res, res_entries res, map name (res_snapshot res))"
    and "snapshot_record (sync w) n = find (\<lambda>s. name s = n) (res_snapshot res)"
    and "working_record (sync w) n = map_of (res_updatedServers res) n"
  using assms by (simp_all add: run_summary_def snapshot_record_def working_record_def)


text \<open>The registry reports a new description for \<open>acme/tool\<close> one minute after it
  was enriched: the merged record has the new description and the enrichment of
  the first run, in the working collection and in the snapshot.\<close>

theorem sync_update_keeps_enrichment_witness:
  "run_summary (sync (sample_sync_world
      [sample_entry ''acme/tool'' ''A better tool'' Active True])) =
     Some (False, [sample_entry ''acme/tool'' ''A better tool'' Active True], [''acme/tool'']) \<and>
   description (sample_server ''acme/tool'' 1700000000002) = ''A tool'' \<and>
   working_record (sync (sample_sync_world
      [sample_entry ''acme/tool'' ''A better tool'' Active True])) ''acme/tool'' =
     Some ((convertRegistryEntry (sample_entry ''acme/tool'' ''A better tool'' Active True))
             \<lparr>enrichment := enrichment (sample_server ''acme/tool'' 1700000000002)\<rparr>) \<and>
   snapshot_record (sync (sample_sync_world
      [sample_entry ''acme/tool'' ''A better tool'' Active True])) ''acme/tool'' =
     Some (computeServerFields
       ((convertRegistryEntry (sample_entry ''acme/tool'' ''A better tool'' Active True))
          \<lparr>enrichment := enrichment (sample_server ''acme/tool'' 1700000000002)\<rparr>)) \<and>
   map_option description (snapshot_record (sync (sample_sync_world
      [sample_entry ''acme/tool'' ''A better tool'' Active True])) ''acme/tool'') =
     Some ''A better tool'' \<and>
   map_option version (snapshot_record (sync (sample_sync_world
      [sample_entry ''acme/tool'' ''A better tool'' Active True])) ''acme/tool'') =
     Some ''1.0.0'' \<and>
   map_option status (snapshot_record (sync (sample_sync_world
      [sample_entry ''acme/tool'' ''A better tool'' Active True])) ''acme/tool'') =
     Some Active \<and>
   map_option updatedAt (snapshot_record (sync (sample_sync_world
      [sample_entry ''acme/tool'' ''A better tool'' Active True])) ''acme/tool'') =
     Some ''2024-03-01T00:00:00.000Z'' \<and>
   map_option enrichment (snapshot_record (sync (sample_sync_world
      [sample_entry ''acme/tool'' ''A better tool'' Active True])) ''acme/tool'') =
     Some \<lparr>lastEnrichedAt = ''2023-11-14T22:13:20.002Z'', github = None,
           npm = Some sample_npm, pypi = None, nuget = None, docker = None, mcpb = None\<rparr>"
proof -
  let ?e = "sample_entry ''acme/tool'' ''A better tool'' Active True"
  let ?A = "sample_server ''acme/tool'' 1700000000002"
  let ?w = "sample_sync_world [?e]"
  let ?ex = "loadServers (prior_snapshot ?w)"
  let ?s1 = "(convertRegistryEntry ?e)\<lparr>enrichment := enrichment ?A\<rparr>"
  obtain res where run: "sync ?w = Some (Inr res)"
    and entries: "res_entries res = [?e]" and incr: "\<not> res_doFullSync res"
    using sample_run [of "[?e]"] by (auto simp: sample_entry_fields)
  have n: "rs_name (server ?e) = ''acme/tool''" by (simp add: sample_entry_fields)
  have entries': "res_entries res = [] @ ?e # []" using entries by simp
  have prior: "map_of ?ex (rs_name (server ?e)) = Some ?A"
    by (simp add: sample_loaded sample_entry_fields)
  have fresh: "\<forall>i. fresh_within (enrich_worlds ?w i) ?A (24 * 60 * 60 * 1000)"
    using sample_server_fresh [of npm_down "''acme/tool''"]
    by (simp add: sample_sync_world_fields isEnrichmentFresh_within)
  have last: "\<forall>x \<in> set []. rs_name (server x) \<noteq> rs_name (server ?e)" by simp
  have kept: "meta_status (meta ?e) \<noteq> Deleted" by (simp add: sample_entry_fields)
  have hyps: "sync ?w = Some (Inr res) \<and> \<not> res_doFullSync res \<and>
      map_of (loadServers (prior_snapshot ?w)) (rs_name (server ?e)) = Some ?A \<and>
      lastEnrichedAt (enrichment ?A) \<noteq> [] \<and>
      res_entries res = [] @ ?e # [] \<and>
      (\<forall>x \<in> set []. rs_name (server x) \<noteq> rs_name (server ?e)) \<and>
      meta_status (meta ?e) \<noteq> Deleted \<and>
      (\<forall>i. fresh_within (enrich_worlds ?w i) ?A (24 * 60 * 60 * 1000))"
    using run incr prior sample_stamped [of "''acme/tool''" 1700000000002] entries' last
      kept fresh
    by (intro conjI)
  note T = sync_update_keeps_enrichment [of ?w res ?e ?A "[]" "[]", THEN mp, OF hyps]
  have c1: "map_of (res_updatedServers res) (rs_name (server ?e)) = Some ?s1"
    using T by (rule conjunct1)
  have c2: "computeServerFields ?s1 \<in> set (res_snapshot res)"
    using T [THEN conjunct2] by (rule conjunct1)
  have c3: "y = computeServerFields ?s1"
    if "y \<in> set (res_snapshot res)" "name y = rs_name (server ?e)" for y
    using T [THEN conjunct2, THEN conjunct2, THEN conjunct2, THEN bspec, OF that(1),
        THEN mp, OF that(2)] .
  have nm: "name (computeServerFields ?s1) = rs_name (server ?e)"
    by (simp add: computeServerFields_name convert_name)
  have c4: "description (computeServerFields ?s1) = rs_description (server ?e) \<and>
      version (computeServerFields ?s1) = rs_version (server ?e) \<and>
      status (computeServerFields ?s1) = meta_status (meta ?e) \<and>
      updatedAt (computeServerFields ?s1) = meta_updatedAt (meta ?e) \<and>
      enrichment (computeServerFields ?s1) = enrichment ?A"
    using T [THEN conjunct2, THEN conjunct2, THEN conjunct1, THEN spec,
        of "computeServerFields ?s1"] c2 nm
    by blast
  have "working_record (sync ?w) (rs_name (server ?e)) = Some ?s1"
    unfolding observe_run(3) [OF run] by (rule c1)
  then have working: "working_record (sync ?w) ''acme/tool'' = Some ?s1"
    unfolding n .
  have "find (\<lambda>s. name s = rs_name (server ?e)) (res_snapshot res) =
      Some (computeServerFields ?s1)"
  proof (rule find_unique)
    show "computeServerFields ?s1 \<in> set (res_snapshot res)" by (rule c2)
    show "name (computeServerFields ?s1) = rs_name (server ?e)" by (rule nm)
    show "\<forall>y \<in> set (res_snapshot res).
        name y = rs_name (server ?e) \<longrightarrow> y = computeServerFields ?s1"
      using c3 by (intro ballI impI)
  qed
  then have "snapshot_record (sync ?w) (rs_name (server ?e)) = Some (computeServerFields ?s1)"
    unfolding observe_run(2) [OF run] .
  then have snap: "snapshot_record (sync ?w) ''acme/tool'' = Some (computeServerFields ?s1)"
    unfolding n .
  have m: "fst ` set (foldl (merge_entry ?ex) ?ex (res_entries res)) = {''acme/tool''}"
    unfolding entries
    by (simp add: sample_loaded merge_entry_eq sample_entry_fields AList.dom_update)
  have names: "map name (res_snapshot res) = [''acme/tool'']"
    using single_record_run [OF run m] .
  have summary: "run_summary (sync ?w) = Some (False, [?e], [''acme/tool''])"
    unfolding observe_run(1) [OF run] names entries using incr by simp
  have d0: "description ?A = ''A tool''"
    by (simp add: sample_server_def convertRegistryEntry_def Let_def sample_entry_def)
  have ev: "rs_description (server ?e) = ''A better tool''" "rs_version (server ?e) = ''1.0.0''"
    "meta_status (meta ?e) = Active" "meta_updatedAt (meta ?e) = ''2024-03-01T00:00:00.000Z''"
    by (simp_all add: sample_entry_def)
  have en: "enrichment ?A =
      \<lparr>lastEnrichedAt = ''2023-11-14T22:13:20.002Z'', github = None,
       npm = Some sample_npm, pypi = None, nuget = None, docker = None, mcpb = None\<rparr>"
    by (simp add: sample_server_fields toISOString_sample)
  have d: "map_option description (snapshot_record (sync ?w) ''acme/tool'') =
      Some ''A better tool''"
    unfolding snap using c4 ev by simp
  have v: "map_option version (snapshot_record (sync ?w) ''acme/tool'') = Some ''1.0.0''"
    unfolding snap using c4 ev by simp
  have st: "map_option status (snapshot_record (sync ?w) ''acme/tool'') = Some Active"
    unfolding snap using c4 ev by simp
  have u: "map_option updatedAt (snapshot_record (sync ?w) ''acme/tool'') =
      Some ''2024-03-01T00:00:00.000Z''"
    unfolding snap using c4 ev by simp
  have e: "map_option enrichment (snapshot_record (sync ?w) ''acme/tool'') =
      Some \<lparr>lastEnrichedAt = ''2023-11-14T22:13:20.002Z'', github = None,
           npm = Some sample_npm, pypi = None, nuget = None, docker = None, mcpb = None\<rparr>"
    unfolding snap using c4 en by simp
  show ?thesis using summary d0 working snap d v st u e by (intro conjI)
qed

text \<open>The registry reports an update of \<open>acme/tool\<close> and then its deletion: the
  record is gone, although the prior snapshot held it with its enrichment.\<close>

theorem sync_removes_deleted_witness:
  "run_summary (sync (sample_sync_world
      [sample_entry ''acme/tool'' ''A better tool'' Active True,
       sample_entry ''acme/tool'' ''A better tool'' Deleted True])) =
     Some (False,
           [sample_entry ''acme/tool'' ''A better tool'' Active True,
            sample_entry ''acme/tool'' ''A better tool'' Deleted True], []) \<and>
   map_of (loadServers (prior_snapshot (sample_sync_world
      [sample_entry ''acme/tool'' ''A better tool'' Active True,
       sample_entry ''acme/tool'' ''A better tool'' Deleted True]))) ''acme/tool'' =
     Some (sample_server ''acme/tool'' 1700000000002) \<and>
   working_record (sync (sample_sync_world
      [sample_entry ''acme/tool'' ''A better tool'' Active True,
       sample_entry ''acme/tool'' ''A better tool'' Deleted True])) ''acme/tool'' = None \<and>
   snapshot_record (sync (sample_sync_world
      [sample_entry ''acme/tool'' ''A better tool'' Active True,
       sample_entry ''acme/tool'' ''A better tool'' Deleted True])) ''acme/tool'' = None"
proof -
  let ?a = "sample_entry ''acme/tool'' ''A better tool'' Active True"
  let ?d = "sample_entry ''acme/tool'' ''A better tool'' Deleted True"
  let ?w = "sample_sync_world [?a, ?d]"
  let ?ex = "loadServers (prior_snapshot ?w)"
  obtain res where run: "sync ?w = Some (Inr res)"
    and entries: "res_entries res = [?a, ?d]" and incr: "\<not> res_doFullSync res"
    using sample_run [of "[?a, ?d]"] by (auto simp: sample_entry_fields)
  have n: "rs_name (server ?d) = ''acme/tool''" by (simp add: sample_entry_fields)
  have entries': "res_entries res = [?a] @ ?d # []" using entries by simp
  have del: "meta_status (meta ?d) = Deleted" by (simp add: sample_entry_fields)
  have later: "\<forall>x \<in> set []. rs_name (server x) = rs_name (server ?d) \<longrightarrow>
      meta_status (meta x) = Deleted" by simp
  have hyps: "sync ?w = Some (Inr res) \<and> res_entries res = [?a] @ ?d # [] \<and>
      meta_status (meta ?d) = Deleted \<and>
      (\<forall>x \<in> set []. rs_name (server x) = rs_name (server ?d) \<longrightarrow>
                     meta_status (meta x) = Deleted)"
    using run entries' del later by (intro conjI)
  note T = sync_removes_deleted [of ?w res "[?a]" ?d "[]", THEN mp, OF hyps]
  have c1: "map_of (res_updatedServers res) (rs_name (server ?d)) = None"
    using T by (rule conjunct1)
  have c3: "\<forall>r \<in> set (res_snapshot res). name r \<noteq> rs_name (server ?d)"
    using T [THEN conjunct2] by (rule conjunct2)
  have "working_record (sync ?w) (rs_name (server ?d)) = None"
    unfolding observe_run(3) [OF run] by (rule c1)
  then have working: "working_record (sync ?w) ''acme/tool'' = None"
    unfolding n .
  have "find (\<lambda>s. name s = rs_name (server ?d)) (res_snapshot res) = None"
    using c3 by (rule find_none)
  then have "snapshot_record (sync ?w) (rs_name (server ?d)) = None"
    unfolding observe_run(2) [OF run] .
  then have snap: "snapshot_record (sync ?w) ''acme/tool'' = None"
    unfolding n .
  have m: "fst ` set (foldl (merge_entry ?ex) ?ex (res_entries res)) = {}"
    unfolding entries
    by (simp add: sample_loaded merge_entry_eq sample_entry_fields AList.delete_eq)
  have names: "map name (res_snapshot res) = []"
    using no_record_run [OF run m] .
  have summary: "run_summary (sync ?w) = Some (False, [?a, ?d], [])"
    unfolding observe_run(1) [OF run] names entries using incr by simp
  have prior: "map_of ?ex ''acme/tool'' = Some (sample_server ''acme/tool'' 1700000000002)"
    by (simp add: sample_loaded)
  show ?thesis using summary prior working snap by (intro conjI)
qed

text \<open>C4 as written fails when a later entry of the same fetch carries the name
  again: the fetch holds a \<open>deleted\<close> entry for \<open>acme/tool\<close> followed by an active
  one, and the snapshot written by the run holds a record named \<open>acme/tool\<close>.\<close>

theorem sync_deleted_then_republished_counterexample:
  "meta_status (meta (sample_entry ''acme/tool'' ''A tool'' Deleted True)) = Deleted \<and>
   rs_name (server (sample_entry ''acme/tool'' ''A tool'' Deleted True)) = ''acme/tool'' \<and>
   run_summary (sync (sample_sync_world
      [sample_entry ''acme/tool'' ''A tool'' Deleted True,
       sample_entry ''acme/tool'' ''A better tool'' Active True])) =
     Some (False,
           [sample_entry ''acme/tool'' ''A tool'' Deleted True,
            sample_entry ''acme/tool'' ''A better tool'' Active True],
           [''acme/tool''])"
proof -
  let ?d = "sample_entry ''acme/tool'' ''A tool'' Deleted True"
  let ?a = "sample_entry ''acme/tool'' ''A better tool'' Active True"
  let ?w = "sample_sync_world [?d, ?a]"
  let ?ex = "loadServers (prior_snapshot ?w)"
  obtain res where run: "sync ?w = Some (Inr res)"
    and entries: "res_entries res = [?d, ?a]" and incr: "\<not> res_doFullSync res"
    using sample_run [of "[?d, ?a]"] by (auto simp: sample_entry_fields)
  have m: "fst ` set (foldl (merge_entry ?ex) ?ex (res_entries res)) = {''acme/tool''}"
    unfolding entries
    by (simp add: sample_loaded merge_entry_eq sample_entry_fields AList.dom_update)
  have names: "map name (res_snapshot res) = [''acme/tool'']"
    using single_record_run [OF run m] .
  have summary: "run_summary (sync ?w) = Some (False, [?d, ?a], [''acme/tool''])"
    unfolding observe_run(1) [OF run] names entries using incr by simp
  have del: "meta_status (meta ?d) = Deleted" by (simp add: sample_entry_fields)
  have n: "rs_name (server ?d) = ''acme/tool''" by (simp add: sample_entry_fields)
  show ?thesis using del n summary by (intro conjI)
qed

text \<open>C2 as written fails when the update sets the status to \<open>deleted\<close>: the prior
  snapshot holds \<open>acme/tool\<close> with a fresh enrichment, the incremental fetch
  returns an entry for it, and the run writes a snapshot with no record of it.\<close>

theorem sync_update_by_deletion_counterexample:
  "map_of (loadServers (prior_snapshot (sample_sync_world
       [sample_entry ''acme/tool'' ''A better tool'' Deleted True]))) ''acme/tool'' =
     Some (sample_server ''acme/tool'' 1700000000002) \<and>
   lastEnrichedAt (enrichment (sample_server ''acme/tool'' 1700000000002)) =
     ''2023-11-14T22:13:20.002Z'' \<and>
   isEnrichmentFresh (enrich_worlds (sample_sync_world
       [sample_entry ''acme/tool'' ''A better tool'' Deleted True]) 0)
     (sample_server ''acme/tool'' 1700000000002) (Some 86400000) \<and>
   run_summary (sync (sample_sync_world
       [sample_entry ''acme/tool'' ''A better tool'' Deleted True])) =
     Some (False, [sample_entry ''acme/tool'' ''A better tool'' Deleted True], []) \<and>
   snapshot_record (sync (sample_sync_world
       [sample_entry ''acme/tool'' ''A better tool'' Deleted True])) ''acme/tool'' = None"
proof -
  let ?d = "sample_entry ''acme/tool'' ''A better tool'' Deleted True"
  let ?w = "sample_sync_world [?d]"
  let ?ex = "loadServers (prior_snapshot ?w)"
  obtain res where run: "sync ?w = Some (Inr res)"
    and entries: "res_entries res = [?d]" and incr: "\<not> res_doFullSync res"
    using sample_run [of "[?d]"] by (auto simp: sample_entry_fields)
  have m: "fst ` set (foldl (merge_entry ?ex) ?ex (res_entries res)) = {}"
    unfolding entries
    by (simp add: sample_loaded merge_entry_eq sample_entry_fields AList.delete_eq)
  have names: "map name (res_snapshot res) = []" using no_record_run [OF run m] .
  then have empty: "res_snapshot res = []" by simp
  have summary: "run_summary (sync ?w) = Some (False, [?d], [])"
    unfolding observe_run(1) [OF run] names entries using incr by simp
  have snap: "snapshot_record (sync ?w) ''acme/tool'' = None"
    unfolding observe_run(2) [OF run] empty by simp
  have prior: "map_of ?ex ''acme/tool'' = Some (sample_server ''acme/tool'' 1700000000002)"
    by (simp add: sample_loaded)
  have stamp: "lastEnrichedAt (enrichment (sample_server ''acme/tool'' 1700000000002)) =
      ''2023-11-14T22:13:20.002Z''"
    by (simp add: sample_server_fields toISOString_sample)
  have fresh: "isEnrichmentFresh (enrich_worlds ?w 0)
      (sample_server ''acme/tool'' 1700000000002) (Some 86400000)"
    using sample_server_fresh [of npm_down "''acme/tool''"]
    by (simp add: sample_sync_world_fields)
  show ?thesis
    using prior stamp fresh summary snap by (intro conjI)
qed

end
